theory Spec2Isabelle
  imports Complex_Main "HOL-Library.Log_Nat" "HOL-Library.Sublist"
begin

section \<open>JavaScript numbers\<close>

text \<open>
  Every number of the component is an IEEE 754 double. The scores are integers well below
  \<open>2 ^ 53\<close> and are kept as \<open>int\<close>; a product, sum or quotient is the
  exact rational result rounded to the nearest double (53 significant bits, ties to even).
  Only finite values of ordinary magnitude occur (no overflow, no subnormal numbers), so the
  exponent is left unbounded. The one division that can yield NaN, \<open>0 / 0\<close> in the
  relevance score, is written out where it happens.
\<close>

definition pow2 :: "int \<Rightarrow> rat" where
  "pow2 k = (if 0 \<le> k then 2 ^ nat k else 1 / 2 ^ nat (- k))"

definition roundHalfEven :: "rat \<Rightarrow> int" where
  "roundHalfEven x =
     (let f = \<lfloor>x\<rfloor>; d = x - of_int f
      in if d < 1 / 2 then f else if 1 / 2 < d then f + 1 else if even f then f else f + 1)"

text \<open>The exponent \<open>e\<close> with \<open>2 ^ e \<le> x < 2 ^ (e + 1)\<close>, for positive \<open>x\<close>.\<close>

definition binade :: "rat \<Rightarrow> int" where
  "binade x = (if 1 \<le> x then bitlen \<lfloor>x\<rfloor> - 1 else - bitlen (\<lceil>1 / x\<rceil> - 1))"

definition toDouble :: "rat \<Rightarrow> rat" where
  "toDouble x =
     (if x = 0 then 0
      else let u = pow2 (binade \<bar>x\<bar> - 52)
           in sgn x * of_int (roundHalfEven (\<bar>x\<bar> / u)) * u)"

definition fmul :: "rat \<Rightarrow> rat \<Rightarrow> rat" where
  "fmul a b = toDouble (a * b)"

definition fadd :: "rat \<Rightarrow> rat \<Rightarrow> rat" where
  "fadd a b = toDouble (a + b)"

definition fdiv :: "rat \<Rightarrow> rat \<Rightarrow> rat" where
  "fdiv a b = toDouble (a / b)"

text \<open>\<^verbatim>\<open>Math.round\<close>: the nearest integer, a tie going up.\<close>

definition Math_round :: "rat \<Rightarrow> int" where
  "Math_round x = \<lfloor>x + 1 / 2\<rfloor>"

text \<open>The decimal literals of the source, as the doubles they denote.\<close>

definition lit_0_3 :: rat where "lit_0_3 = toDouble (3 / 10)"
definition lit_0_4 :: rat where "lit_0_4 = toDouble (4 / 10)"
definition lit_0_7 :: rat where "lit_0_7 = toDouble (7 / 10)"

section \<open>JavaScript strings\<close>

text \<open>
  A string is a list of characters, a character one of the code units \<open>0\<close> to \<open>255\<close>
  (ISO 8859-1, the first 256 code points of Unicode). On these \<^verbatim>\<open>toLowerCase\<close> adds
  \<open>32\<close> to the code of a capital letter, \<open>A\<close> to \<open>Z\<close> and \<open>0xC0\<close> to \<open>0xDE\<close>
  without the multiplication sign \<open>0xD7\<close>, and leaves every other character as it is.
  \<^verbatim>\<open>includes\<close> is the search for a contiguous occurrence.
\<close>

definition lowerChar :: "char \<Rightarrow> char" where
  "lowerChar c =
     (let n = of_char c :: nat
      in if (65 \<le> n \<and> n \<le> 90) \<or> (192 \<le> n \<and> n \<le> 222 \<and> n \<noteq> 215)
         then char_of (n + 32) else c)"

definition toLowerCase :: "string \<Rightarrow> string" where
  "toLowerCase s = map lowerChar s"

fun startsWith :: "string \<Rightarrow> string \<Rightarrow> bool" where
  "startsWith s [] = True"
| "startsWith [] (p # ps) = False"
| "startsWith (c # cs) (p # ps) = (c = p \<and> startsWith cs ps)"

fun includes_str :: "string \<Rightarrow> string \<Rightarrow> bool" where
  "includes_str [] p = (p = [])"
| "includes_str (c # cs) p = (startsWith (c # cs) p \<or> includes_str cs p)"

section \<open>Textual scoring\<close>

subsection \<open>Regular expressions\<close>

text \<open>
  \<^verbatim>\<open>evaluateCommunication\<close> counts the matches of nine regular expressions. Their
  constructs are modelled as JavaScript matches them: by backtracking, leftmost first,
  repetition greedy. \<open>Group\<close> is the parenthesis that \<^verbatim>\<open>\1\<close> refers to (\<open>Backref\<close>);
  the other parentheses only group. The classes are \<^verbatim>\<open>\w\<close>, \<^verbatim>\<open>\s\<close>,
  \<^verbatim>\<open>[A-Z]\<close>, \<^verbatim>\<open>[.!?]\<close>, \<^verbatim>\<open>[^.!?]\<close> and a single character; with the flag
  \<open>i\<close> (the argument \<open>ic\<close>) letters match in either case.
\<close>

datatype charclass = Word | Space | Upper | EndMark | NotEndMark | Lit char

datatype regex =
    Eps
  | Class charclass
  | Then regex regex
  | Or regex regex
  | AtLeast nat regex
  | Group regex
  | Backref
  | Boundary

definition isWordChar :: "char \<Rightarrow> bool" where
  "isWordChar c =
     (let n = of_char c :: nat
      in (48 \<le> n \<and> n \<le> 57) \<or> (65 \<le> n \<and> n \<le> 90) \<or> n = 95 \<or> (97 \<le> n \<and> n \<le> 122))"

definition isSpaceChar :: "char \<Rightarrow> bool" where
  "isSpaceChar c = (let n = of_char c :: nat in n = 32 \<or> (9 \<le> n \<and> n \<le> 13) \<or> n = 160)"

definition isEndMark :: "char \<Rightarrow> bool" where
  "isEndMark c = (c = CHR ''.'' \<or> c = CHR ''!'' \<or> c = CHR ''?'')"

fun inClass :: "bool \<Rightarrow> charclass \<Rightarrow> char \<Rightarrow> bool" where
  "inClass ic Word c = isWordChar c"
| "inClass ic Space c = isSpaceChar c"
| "inClass ic Upper c =
     (let n = of_char c :: nat in (65 \<le> n \<and> n \<le> 90) \<or> (ic \<and> 97 \<le> n \<and> n \<le> 122))"
| "inClass ic EndMark c = isEndMark c"
| "inClass ic NotEndMark c = (\<not> isEndMark c)"
| "inClass ic (Lit d) c = (if ic then lowerChar d = lowerChar c else d = c)"

text \<open>\<^verbatim>\<open>\b\<close>: a word character on exactly one side of the position.\<close>

definition wordAt :: "string \<Rightarrow> nat \<Rightarrow> bool" where
  "wordAt s i = (i < length s \<and> isWordChar (s ! i))"

definition atBoundary :: "string \<Rightarrow> nat \<Rightarrow> bool" where
  "atBoundary s i = ((0 < i \<and> wordAt s (i - 1)) \<noteq> wordAt s i)"

definition sameText :: "bool \<Rightarrow> string \<Rightarrow> string \<Rightarrow> bool" where
  "sameText ic a b = (if ic then map lowerChar a = map lowerChar b else a = b)"

type_synonym capture = "(nat \<times> nat) option"

fun weight :: "regex \<Rightarrow> nat" where
  "weight (Then a b) = weight a + weight b + 1"
| "weight (Or a b) = weight a + weight b + 1"
| "weight (AtLeast n a) = n + weight a + 1"
| "weight (Group a) = weight a + 1"
| "weight r = 0"

text \<open>
  \<open>run ic s r i cap k\<close> matches \<open>r\<close> in \<open>s\<close> from position \<open>i\<close>, with \<open>cap\<close> the
  span of the group so far, and hands the position it reaches to \<open>k\<close>, the rest of the
  match; where \<open>k\<close> fails it tries its next alternative. A repetition takes another
  round first and a round that consumes nothing is not repeated. The tests on \<open>j\<close> hold
  in every run (a match only moves forward, within the text).
\<close>

function run ::
  "bool \<Rightarrow> string \<Rightarrow> regex \<Rightarrow> nat \<Rightarrow> capture \<Rightarrow> (nat \<Rightarrow> capture \<Rightarrow> nat option) \<Rightarrow> nat option"
where
  "run ic s Eps i cap k = k i cap"
| "run ic s (Class c) i cap k =
     (if i < length s \<and> inClass ic c (s ! i) then k (i + 1) cap else None)"
| "run ic s (Then a b) i cap k =
     run ic s a i cap
       (\<lambda>j cap'. if i \<le> j \<and> j \<le> length s then run ic s b j cap' k else None)"
| "run ic s (Or a b) i cap k =
     (case run ic s a i cap k of Some e \<Rightarrow> Some e | None \<Rightarrow> run ic s b i cap k)"
| "run ic s (AtLeast 0 a) i cap k =
     (case run ic s a i cap
             (\<lambda>j cap'. if i < j \<and> j \<le> length s then run ic s (AtLeast 0 a) j cap' k
                        else None)
      of Some e \<Rightarrow> Some e | None \<Rightarrow> k i cap)"
| "run ic s (AtLeast (Suc n) a) i cap k =
     run ic s a i cap
       (\<lambda>j cap'. if i \<le> j \<and> j \<le> length s then run ic s (AtLeast n a) j cap' k else None)"
| "run ic s (Group a) i cap k = run ic s a i cap (\<lambda>j cap'. k j (Some (i, j)))"
| "run ic s Backref i cap k =
     (case cap of
        None \<Rightarrow> k i cap
      | Some (b, e) \<Rightarrow>
          if i + (e - b) \<le> length s
             \<and> sameText ic (take (e - b) (drop b s)) (take (e - b) (drop i s))
          then k (i + (e - b)) cap else None)"
| "run ic s Boundary i cap k = (if atBoundary s i then k i cap else None)"
  by pat_completeness auto
termination
  by (relation "measures [\<lambda>(ic, s, r, i, cap, k). length s - i,
                          \<lambda>(ic, s, r, i, cap, k). weight r]")
     auto

text \<open>The first match at or after \<open>start\<close>: its first and its end position.\<close>

function firstMatch :: "bool \<Rightarrow> string \<Rightarrow> regex \<Rightarrow> nat \<Rightarrow> (nat \<times> nat) option" where
  "firstMatch ic s r start =
     (if length s < start then None
      else case run ic s r start None (\<lambda>j cap. Some j) of
             Some e \<Rightarrow> Some (start, e)
           | None \<Rightarrow> firstMatch ic s r (start + 1))"
  by pat_completeness auto
termination
  by (relation "measure (\<lambda>(ic, s, r, start). length s + 1 - start)") auto

text \<open>
  The matches found with the flag \<open>g\<close>: each search starts where the last match ended,
  one further after an empty match.
\<close>

function countMatches :: "bool \<Rightarrow> string \<Rightarrow> regex \<Rightarrow> nat \<Rightarrow> nat" where
  "countMatches ic s r lastIndex =
     (case firstMatch ic s r lastIndex of
        None \<Rightarrow> 0
      | Some (b, e) \<Rightarrow>
          (let next = (if e = b then e + 1 else e)
           in if lastIndex < next \<and> next \<le> length s + 1
              then 1 + countMatches ic s r next else 1))"
  by pat_completeness auto
termination
  by (relation "measure (\<lambda>(ic, s, r, lastIndex). length s + 1 - lastIndex)") auto

text \<open>\<^verbatim>\<open>(text.match(pattern) || []).length\<close> for a pattern with the flag \<open>g\<close>.\<close>

definition matches :: "regex \<times> bool \<Rightarrow> string \<Rightarrow> nat" where
  "matches pattern text = countMatches (snd pattern) text (fst pattern) 0"

fun literal :: "string \<Rightarrow> regex" where
  "literal [] = Eps"
| "literal [c] = Class (Lit c)"
| "literal (c # cs) = Then (Class (Lit c)) (literal cs)"

fun oneOf :: "string list \<Rightarrow> regex" where
  "oneOf [] = Eps"
| "oneOf [w] = literal w"
| "oneOf (w # ws) = Or (literal w) (oneOf ws)"

definition some :: "regex \<Rightarrow> regex" where
  "some r = AtLeast 1 r"

definition wholeWords :: "string list \<Rightarrow> regex" where
  "wholeWords ws = Then Boundary (Then (oneOf ws) Boundary)"

subsection \<open>Communication score\<close>

text \<open>
  The nine patterns of \<^verbatim>\<open>evaluateCommunication\<close>, each with its flag \<open>i\<close>:
  \<^item> \<open>repeatedWord\<close>: \<^verbatim>\<open>/\b(\w+)\s+\1\b/gi\<close>
  \<^item> \<open>missingPeriod\<close>: \<^verbatim>\<open>/\w+\s+[A-Z]/g\<close>
  \<^item> \<open>runOn\<close>: \<^verbatim>\<open>/\b(\w+\s+){40,}\w+[.!?]/g\<close>
  \<^item> \<open>filler\<close>: \<^verbatim>\<open>/\b(um|uh|like|you know|basically|actually|literally)\b/gi\<close>
  \<^item> \<open>agreementSingular\<close>: \<^verbatim>\<open>/\b(he|she|it)\s+(are|were|have been)\b/gi\<close>
  \<^item> \<open>agreementPlural\<close>: \<^verbatim>\<open>/\b(they|we|you)\s+(is|was|has been)\b/gi\<close>
  \<^item> \<open>transition\<close>: \<^verbatim>\<open>/\b(first|second|third|finally|in conclusion|therefore|consequently|however|moreover|furthermore)\b/gi\<close>
  \<^item> \<open>completeSentence\<close>: \<^verbatim>\<open>/[A-Z][^.!?]*[.!?]/g\<close>
  \<^item> \<open>technicalTerm\<close>: \<^verbatim>\<open>/\b(algorithm|function|component|state|props|hook|api|interface|dependency|framework|library)\b/gi\<close>
\<close>

definition repeatedWord :: "regex \<times> bool" where
  "repeatedWord =
     (Then Boundary
        (Then (Group (some (Class Word))) (Then (some (Class Space)) (Then Backref Boundary))),
      True)"

definition missingPeriod :: "regex \<times> bool" where
  "missingPeriod = (Then (some (Class Word)) (Then (some (Class Space)) (Class Upper)), False)"

definition runOn :: "regex \<times> bool" where
  "runOn =
     (Then Boundary
        (Then (AtLeast 40 (Then (some (Class Word)) (some (Class Space))))
           (Then (some (Class Word)) (Class EndMark))),
      False)"

definition filler :: "regex \<times> bool" where
  "filler =
     (wholeWords [''um'', ''uh'', ''like'', ''you know'', ''basically'', ''actually'',
        ''literally''],
      True)"

definition agreementSingular :: "regex \<times> bool" where
  "agreementSingular =
     (Then Boundary
        (Then (oneOf [''he'', ''she'', ''it''])
           (Then (some (Class Space)) (Then (oneOf [''are'', ''were'', ''have been'']) Boundary))),
      True)"

definition agreementPlural :: "regex \<times> bool" where
  "agreementPlural =
     (Then Boundary
        (Then (oneOf [''they'', ''we'', ''you''])
           (Then (some (Class Space)) (Then (oneOf [''is'', ''was'', ''has been'']) Boundary))),
      True)"

definition transition :: "regex \<times> bool" where
  "transition =
     (wholeWords [''first'', ''second'', ''third'', ''finally'', ''in conclusion'',
        ''therefore'', ''consequently'', ''however'', ''moreover'', ''furthermore''],
      True)"

definition completeSentence :: "regex \<times> bool" where
  "completeSentence =
     (Then (Class Upper) (Then (AtLeast 0 (Class NotEndMark)) (Class EndMark)), False)"

definition technicalTerm :: "regex \<times> bool" where
  "technicalTerm =
     (wholeWords [''algorithm'', ''function'', ''component'', ''state'', ''props'', ''hook'',
        ''api'', ''interface'', ''dependency'', ''framework'', ''library''],
      True)"

definition grammarIssues :: "((regex \<times> bool) \<times> int) list" where
  "grammarIssues =
     [(repeatedWord, 5), (missingPeriod, 3), (runOn, 10), (filler, 2),
      (agreementSingular, 5), (agreementPlural, 5)]"

definition positiveIndicators :: "((regex \<times> bool) \<times> int) list" where
  "positiveIndicators = [(transition, 5), (completeSentence, 3), (technicalTerm, 2)]"

text \<open>The two \<^verbatim>\<open>forEach\<close> loops: each adds \<open>matches.length * weight\<close> to its total.\<close>

definition weighted :: "string \<Rightarrow> ((regex \<times> bool) \<times> int) list \<Rightarrow> int" where
  "weighted text ps = foldl (\<lambda>total (pattern, w). total + int (matches pattern text) * w) 0 ps"

definition evaluateCommunication :: "string \<Rightarrow> int" where
  "evaluateCommunication text =
     (if text = [] then 0
      else let penalties = weighted text grammarIssues;
               bonuses = weighted text positiveIndicators;
               score = 70 - penalties + bonuses;
               score = (if length text < 50 then min score 40 else score)
           in max 0 (min 100 score))"

subsection \<open>Relevance score\<close>

text \<open>
  The relevance part of the scoring effect: one count per key phrase found in the answer,
  both put in lower case, then \<^verbatim>\<open>Math.min(Math.round((matched / max) * 100), 100)\<close>.
  With no key phrase the quotient is \<open>0 / 0\<close>, the result NaN: \<open>None\<close>.
\<close>

definition matchedPhrases :: "string \<Rightarrow> string list \<Rightarrow> nat" where
  "matchedPhrases userAnswer keyPhrases =
     foldl (\<lambda>n phrase. if includes_str (toLowerCase userAnswer) (toLowerCase phrase)
                        then n + 1 else n) 0 keyPhrases"

definition newRelevanceScore :: "string \<Rightarrow> string list \<Rightarrow> int option" where
  "newRelevanceScore userAnswer keyPhrases =
     (let matched = matchedPhrases userAnswer keyPhrases;
          maxPossibleMatches = min 5 (length keyPhrases)
      in if maxPossibleMatches = 0 then None
         else Some (min (Math_round (fmul (fdiv (of_nat matched) (of_nat maxPossibleMatches)) 100))
                        100))"

section \<open>The interview component\<close>

subsection \<open>State\<close>

text \<open>
  The state of \<^verbatim>\<open>InterviewInProgress\<close>: its \<^verbatim>\<open>useState\<close> cells, the two refs
  the handlers test (\<open>detectionInterval\<close> and \<open>speechRecognition\<close>: whether
  \<^verbatim>\<open>detectionIntervalRef.current\<close> and \<^verbatim>\<open>speechRecognitionRef.current\<close> are set), and
  the two effects on the outside world: the reports sent to the submission API (\<open>posted\<close>,
  one entry per \<^verbatim>\<open>axios.post\<close>) and the routes passed to \<^verbatim>\<open>navigate\<close>.
  An entry of \<open>answers\<close> is \<open>None\<close> where the JavaScript array has a hole.
\<close>

record question_item =
  qid :: int
  question :: string
  expectedTopics :: "string list"
  keyPhrases :: "string list"

record performance_data =
  confidence :: int
  communicationSkills :: int
  relevance :: int
  fluency :: int

text \<open>
  \<^verbatim>\<open>interviewData\<close>, the report: its score, averages, the two feedback lines, the
  questions, the responses and the metric histories (the settings, the dates and the
  expression counts are left out).
\<close>

record interviewData =
  score :: int
  performance :: performance_data
  strength :: string
  improvement :: string
  askedQuestions :: "string list"
  responses :: "string option list"
  metricsConfidenceHistory :: "int list"
  metricsRelevanceHistory :: "int list"
  metricsCommunicationHistory :: "int list"

record state =
  currentQuestion :: nat
  remainingTime :: int
  userAnswer :: string
  isThinking :: bool
  answers :: "string option list"
  loading :: bool
  error :: string
  facialExpression :: string
  confidenceScore :: int
  faceDetectionSuccess :: int
  relevanceScore :: int
  communicationScore :: int
  confidenceHistory :: "int list"
  relevanceHistory :: "int list"
  communicationHistory :: "int list"
  modelsLoaded :: bool
  cameraActive :: bool
  speechToText :: string
  isListening :: bool
  isShuttingDown :: bool
  expressionCounts :: "string \<Rightarrow> nat"
  questions :: "question_item list"
  detectionInterval :: bool
  speechRecognition :: bool
  posted :: "interviewData list"
  navigated :: "string list"

text \<open>
  A handler is a closure of one render of the component: the state variables it names are
  the constants of that render, and a setter does not change them. Every handler below
  therefore takes two states: \<open>r\<close>, the render that created it, from which it reads, and
  \<open>st\<close>, the pending state, which its setter calls update (a setter given a function,
  \<^verbatim>\<open>setX((prev) => ...)\<close>, reads \<open>prev\<close> from \<open>st\<close>; refs are read from \<open>st\<close>).
  A handler called by a click runs in the latest render: \<open>r = st\<close>.
\<close>

definition initialState :: state where
  "initialState =
     \<lparr>currentQuestion = 0, remainingTime = 30 * 60, userAnswer = [], isThinking = False,
      answers = [], loading = False, error = [], facialExpression = ''neutral'',
      confidenceScore = 0, faceDetectionSuccess = 0, relevanceScore = 0,
      communicationScore = 0, confidenceHistory = [], relevanceHistory = [],
      communicationHistory = [], modelsLoaded = False, cameraActive = True,
      speechToText = [], isListening = False, isShuttingDown = False,
      expressionCounts = (\<lambda>_. 0), questions = [], detectionInterval = False,
      speechRecognition = False, posted = [], navigated = []\<rparr>"

subsection \<open>Perception: \<^verbatim>\<open>detectFace\<close>\<close>

text \<open>
  What one call observes: the video element (its dimensions, \<open>None\<close> without a webcam
  or video) when it starts, and the outcome of the awaited detection: the faces found,
  each giving the intensity of an expression label (\<open>None\<close> where the entry is not a
  number), or a failure (the one-second timeout or an error of the detector).
\<close>

type_synonym face = "string \<Rightarrow> rat option"

datatype detection = Detected "face list" | DetectionFailed

definition getExpressionValue :: "face \<Rightarrow> string \<Rightarrow> rat" where
  "getExpressionValue firstFace key = (case firstFace key of Some v \<Rightarrow> v | None \<Rightarrow> 0)"

definition expressions :: "string list" where
  "expressions =
     [''neutral'', ''happy'', ''sad'', ''angry'', ''fearful'', ''disgusted'', ''surprised'']"

text \<open>The loop for the dominant expression, from \<open>(''neutral'', 0)\<close>.\<close>

definition dominant :: "face \<Rightarrow> string \<times> rat" where
  "dominant firstFace =
     foldl (\<lambda>(maxExpression, maxValue) expr.
              let v = getExpressionValue firstFace expr
              in if maxValue < v then (expr, v) else (maxExpression, maxValue))
       (''neutral'', 0) expressions"

definition expressionScore :: "string \<Rightarrow> rat \<Rightarrow> int" where
  "expressionScore maxExpression dominantStrength =
     (if maxExpression = ''happy'' then 50 + Math_round (fmul dominantStrength 50)
      else if maxExpression = ''neutral'' then 40 + Math_round (fmul dominantStrength 20)
      else if maxExpression = ''surprised'' then 30 + Math_round (fmul dominantStrength 20)
      else if maxExpression = ''sad'' then 15 + Math_round (fmul dominantStrength 25)
      else if maxExpression = ''fearful'' then 10 + Math_round (fmul dominantStrength 25)
      else if maxExpression = ''angry'' then 10 + Math_round (fmul dominantStrength 20)
      else if maxExpression = ''disgusted'' then 10 + Math_round (fmul dominantStrength 20)
      else 50)"

text \<open>The smoothing and the bound, lines 1340 to 1348.\<close>

definition newScore :: "int \<Rightarrow> int \<Rightarrow> int" where
  "newScore previous raw =
     (if 0 < previous
      then Math_round (fadd (fmul lit_0_7 (of_int raw)) (fmul lit_0_3 (of_int previous)))
      else raw)"

definition boundedScore :: "int \<Rightarrow> int \<Rightarrow> int" where
  "boundedScore previous raw = max 10 (min 100 (newScore previous raw))"

definition facePresent :: "state \<Rightarrow> face \<Rightarrow> state \<Rightarrow> state" where
  "facePresent r firstFace st =
     (let st = st\<lparr>faceDetectionSuccess := min (faceDetectionSuccess st + 1) 10\<rparr>;
          (maxExpression, maxValue) = dominant firstFace;
          st = (if lit_0_3 < maxValue \<or> facialExpression r = ''unknown''
                   \<or> facialExpression r = ''neutral''
                then st\<lparr>facialExpression := maxExpression,
                        expressionCounts :=
                          (expressionCounts st)(maxExpression := expressionCounts st maxExpression + 1)\<rparr>
                else st)
      in st\<lparr>confidenceScore :=
               boundedScore (confidenceScore r) (expressionScore maxExpression maxValue)\<rparr>)"

definition noFace :: "state \<Rightarrow> state \<Rightarrow> state" where
  "noFace r st =
     (let st = (if confidenceScore r \<noteq> 0 then st\<lparr>confidenceScore := 0\<rparr> else st);
          st = st\<lparr>faceDetectionSuccess := max 0 (faceDetectionSuccess st - 1)\<rparr>
      in if facialExpression r \<noteq> ''unknown'' then st\<lparr>facialExpression := ''unknown''\<rparr> else st)"

text \<open>The \<^verbatim>\<open>catch\<close> block: the same three updates, the counter first.\<close>

definition detectionError :: "state \<Rightarrow> state \<Rightarrow> state" where
  "detectionError r st =
     (let st = st\<lparr>faceDetectionSuccess := max 0 (faceDetectionSuccess st - 1)\<rparr>;
          st = (if confidenceScore r \<noteq> 0 then st\<lparr>confidenceScore := 0\<rparr> else st)
      in if facialExpression r \<noteq> ''unknown'' then st\<lparr>facialExpression := ''unknown''\<rparr> else st)"

text \<open>
  \<^verbatim>\<open>detectFace\<close> is asynchronous. Its first part runs at once: the guard, then the
  check of the video dimensions; the result says whether a detection is now in flight.
  Its second part runs when the awaited detection settles. Nothing is tested in between.
\<close>

definition detectFace_start :: "state \<Rightarrow> (nat \<times> nat) option \<Rightarrow> state \<Rightarrow> state \<times> bool" where
  "detectFace_start r video st =
     (if isShuttingDown r \<or> video = None \<or> \<not> modelsLoaded r \<or> \<not> cameraActive r
      then (st, False)
      else case video of
             None \<Rightarrow> (st, False)
           | Some (videoWidth, videoHeight) \<Rightarrow>
               if videoWidth = 0 \<or> videoHeight = 0
               then (if confidenceScore r \<noteq> 0
                     then st\<lparr>confidenceScore := 0, facialExpression := ''unknown''\<rparr>
                     else st, False)
               else (st, True))"

definition detectFace_settle :: "state \<Rightarrow> detection \<Rightarrow> state \<Rightarrow> state" where
  "detectFace_settle r faces st =
     (case faces of
        Detected (firstFace # others) \<Rightarrow> facePresent r firstFace st
      | Detected [] \<Rightarrow> noFace r st
      | DetectionFailed \<Rightarrow> detectionError r st)"

text \<open>A call during which nothing else happens.\<close>

definition detectFace :: "state \<Rightarrow> (nat \<times> nat) option \<Rightarrow> detection \<Rightarrow> state \<Rightarrow> state" where
  "detectFace r video faces st =
     (case detectFace_start r video st of
        (st', inFlight) \<Rightarrow> if inFlight then detectFace_settle r faces st' else st')"

text \<open>
  The monitoring effect of lines 1851 to 1894 replaces a confidence score that has not
  changed for five checks; \<open>randomChange\<close> is its random number, from \<open>-15\<close> to \<open>15\<close>.
\<close>

definition forceConfidence :: "state \<Rightarrow> int \<Rightarrow> state \<Rightarrow> state" where
  "forceConfidence r randomChange st =
     st\<lparr>confidenceScore := max 20 (min 100 (confidenceScore r + randomChange))\<rparr>"

subsection \<open>The scoring effect\<close>

text \<open>
  The effect of lines 1409 to 1443 runs after a render in which the answer, the question
  index or the questions changed. It yields \<open>None\<close> where the relevance score it would
  store is NaN.
\<close>

definition scoreAnswer :: "state \<Rightarrow> state \<Rightarrow> state option" where
  "scoreAnswer r st =
     (if userAnswer r = [] \<or> questions r = []
      then Some (st\<lparr>relevanceScore := 0, communicationScore := 0\<rparr>)
      else if length (questions r) \<le> currentQuestion r then Some st
      else let currentQuestionData = questions r ! currentQuestion r;
               st = st\<lparr>communicationScore := evaluateCommunication (userAnswer r)\<rparr>
           in case newRelevanceScore (userAnswer r) (keyPhrases currentQuestionData) of
                None \<Rightarrow> None
              | Some v \<Rightarrow> Some (st\<lparr>relevanceScore := v\<rparr>))"

subsection \<open>Saving answers and metrics\<close>

text \<open>\<^verbatim>\<open>newAnswers[i] = v\<close> on a copy: beyond the end, the array grows and leaves holes.\<close>

definition assignAt :: "string option list \<Rightarrow> nat \<Rightarrow> string \<Rightarrow> string option list" where
  "assignAt xs i v =
     (if i < length xs then xs[i := Some v]
      else xs @ replicate (i - length xs) None @ [Some v])"

definition saveAnswerForCurrentQuestion :: "state \<Rightarrow> state \<Rightarrow> state" where
  "saveAnswerForCurrentQuestion r st =
     st\<lparr>answers := assignAt (answers r) (currentQuestion r) (userAnswer r)\<rparr>"

definition saveCurrentMetrics :: "state \<Rightarrow> state \<Rightarrow> state" where
  "saveCurrentMetrics r st =
     st\<lparr>confidenceHistory := confidenceHistory st @ [confidenceScore r],
        relevanceHistory := relevanceHistory st @ [relevanceScore r],
        communicationHistory := communicationHistory st @ [communicationScore r]\<rparr>"

definition stopListening :: "state \<Rightarrow> state \<Rightarrow> state" where
  "stopListening r st =
     (if speechRecognition st \<and> isListening r then st\<lparr>isListening := False\<rparr> else st)"

subsection \<open>The report\<close>

definition calculateAverage :: "int list \<Rightarrow> int" where
  "calculateAverage arr =
     (if arr = [] then 0
      else let sum = foldl (\<lambda>total v. total + v) 0 arr
           in Math_round (fdiv (of_int sum) (of_nat (length arr))))"

definition overallScore :: "int \<Rightarrow> int \<Rightarrow> int \<Rightarrow> int" where
  "overallScore avgConfidence avgRelevance avgCommunication =
     Math_round (fadd (fadd (fmul (of_int avgConfidence) lit_0_3)
                            (fmul (of_int avgRelevance) lit_0_4))
                      (fmul (of_int avgCommunication) lit_0_3))"

definition strengthTopic :: "int \<Rightarrow> int \<Rightarrow> int \<Rightarrow> string" where
  "strengthTopic avgConfidence avgRelevance avgCommunication =
     (if avgCommunication < avgConfidence \<and> avgRelevance < avgConfidence then ''confidence''
      else if avgRelevance < avgCommunication then ''communication skills''
      else ''relevance in your answers'')"

definition improvementTopic :: "int \<Rightarrow> int \<Rightarrow> int \<Rightarrow> string" where
  "improvementTopic avgConfidence avgRelevance avgCommunication =
     (if avgConfidence < avgCommunication \<and> avgConfidence < avgRelevance
      then ''confidence during interviews''
      else if avgCommunication < avgRelevance then ''communication skills''
      else ''answer relevance by including more key technical terms'')"

text \<open>
  The report is built from the histories, questions and answers of the render \<open>r\<close>.
  \<^verbatim>\<open>Array(n)\<close> with a negative \<open>n\<close> throws a RangeError: \<open>None\<close>.
\<close>

definition buildInterviewData :: "state \<Rightarrow> interviewData option" where
  "buildInterviewData r =
     (let avgConfidence = calculateAverage (confidenceHistory r);
          avgRelevance = calculateAverage (relevanceHistory r);
          avgCommunication = calculateAverage (communicationHistory r);
          d = \<lparr>score = overallScore avgConfidence avgRelevance avgCommunication,
               performance = \<lparr>confidence = avgConfidence, communicationSkills = avgCommunication,
                               relevance = avgRelevance, fluency = 0\<rparr>,
               strength = ''You demonstrated good ''
                  @ strengthTopic avgConfidence avgRelevance avgCommunication @ ''.'',
               improvement = ''Consider working on your ''
                  @ improvementTopic avgConfidence avgRelevance avgCommunication @ ''.'',
               askedQuestions = map question (questions r),
               responses = answers r,
               metricsConfidenceHistory = confidenceHistory r,
               metricsRelevanceHistory = relevanceHistory r,
               metricsCommunicationHistory = communicationHistory r\<rparr>
      in if length (answers r) = length (questions r) then Some d
         else if length (questions r) < length (answers r) then None
         else Some (d\<lparr>responses :=
                        answers r
                        @ replicate (length (questions r) - length (answers r)) (Some [])\<rparr>))"

subsection \<open>\<^verbatim>\<open>endInterview\<close> and \<^verbatim>\<open>nextQuestion\<close>\<close>

text \<open>
  What the submission meets: the stored token and the fate of the request: created
  with an id, aborted by the 15 second timer, or failed with an optional message.
\<close>

datatype post_result = Created string | TimedOut | Failed "string option"

record submission =
  token :: "string option"
  postResult :: post_result

definition noToken :: "submission \<Rightarrow> bool" where
  "noToken env = (token env = None \<or> token env = Some [])"

text \<open>
  \<^verbatim>\<open>endInterview\<close> has three parts, separated by its two waits (300 ms and 100 ms).
  None of them tests \<open>isShuttingDown\<close>.
\<close>

definition endInterview_shutdown :: "state \<Rightarrow> state \<Rightarrow> state" where
  "endInterview_shutdown r st =
     st\<lparr>isShuttingDown := True, cameraActive := False, detectionInterval := False\<rparr>"

definition endInterview_save :: "state \<Rightarrow> state \<Rightarrow> state" where
  "endInterview_save r st =
     (let st = saveAnswerForCurrentQuestion r st;
          st = saveCurrentMetrics r st
      in if isListening r then stopListening r st else st)"

definition fallbackRoute :: string where
  "fallbackRoute = ''/interview/results''"

definition failureMessage :: "string option \<Rightarrow> string" where
  "failureMessage message =
     (case message of
        None \<Rightarrow> ''Failed to save interview data''
      | Some m \<Rightarrow> (if m = [] then ''Failed to save interview data'' else m))"

definition afterPost :: "post_result \<Rightarrow> state \<Rightarrow> state" where
  "afterPost result st =
     (case result of
        Created newId \<Rightarrow> st\<lparr>navigated := navigated st @ [''/results/'' @ newId]\<rparr>
      | TimedOut \<Rightarrow>
          st\<lparr>error := ''Saving interview timed out. Your interview data might not be saved.'',
             navigated := navigated st @ [fallbackRoute]\<rparr>
      | Failed message \<Rightarrow>
          st\<lparr>error := failureMessage message, navigated := navigated st @ [fallbackRoute]\<rparr>)"

definition submitReport :: "interviewData \<Rightarrow> submission \<Rightarrow> state \<Rightarrow> state" where
  "submitReport d env st =
     (let st = st\<lparr>loading := True, error := []\<rparr>
      in if noToken env
         then st\<lparr>error := ''Authentication required'',
                 navigated := navigated st @ [fallbackRoute]\<rparr>
         else afterPost (postResult env) (st\<lparr>posted := posted st @ [d]\<rparr>))"

definition endInterview_submit :: "state \<Rightarrow> submission \<Rightarrow> state \<Rightarrow> state" where
  "endInterview_submit r env st =
     (let st = (case buildInterviewData r of
                  None \<Rightarrow>
                    st\<lparr>error := ''Invalid array length'',
                       navigated := navigated st @ [fallbackRoute]\<rparr>
                | Some d \<Rightarrow> submitReport d env st)
      in st\<lparr>loading := False\<rparr>)"

text \<open>A call during which nothing else happens.\<close>

definition endInterview :: "state \<Rightarrow> submission \<Rightarrow> state \<Rightarrow> state" where
  "endInterview r env st =
     endInterview_submit r env (endInterview_save r (endInterview_shutdown r st))"

definition nextQuestion :: "state \<Rightarrow> submission \<Rightarrow> state \<Rightarrow> state" where
  "nextQuestion r env st =
     (let st = saveAnswerForCurrentQuestion r st;
          st = saveCurrentMetrics r st
      in if int (currentQuestion r) < int (length (questions r)) - 1
         then st\<lparr>currentQuestion := currentQuestion st + 1, userAnswer := [],
                 speechToText := [], isThinking := False\<rparr>
         else endInterview r env st)"

subsection \<open>The other handlers\<close>

definition timerTick :: "state \<Rightarrow> state" where
  "timerTick st = st\<lparr>remainingTime := remainingTime st - 1\<rparr>"

definition timerEffect :: "state \<Rightarrow> submission \<Rightarrow> state \<Rightarrow> state" where
  "timerEffect r env st = (if remainingTime r \<le> 0 then endInterview r env st else st)"

definition speechResult :: "string \<Rightarrow> state \<Rightarrow> state" where
  "speechResult finalTranscript st =
     (if finalTranscript = [] then st
      else st\<lparr>speechToText := speechToText st @ '' '' @ finalTranscript,
              userAnswer :=
                (let prevAnswer = userAnswer st;
                     spacer = (if prevAnswer \<noteq> [] \<and> last prevAnswer \<noteq> CHR '' '' then '' '' else [])
                 in prevAnswer @ spacer @ finalTranscript)\<rparr>)"

definition handleThinkingTime :: "state \<Rightarrow> state \<Rightarrow> state" where
  "handleThinkingTime r st =
     (let st = st\<lparr>isThinking := True\<rparr> in if isListening r then stopListening r st else st)"

text \<open>
  What happens to the component, one event at a time: the questions arrive, the duration
  is set, the models, the camera, the polling interval, the speech recognition and the
  microphone are switched, the candidate types or speaks, asks for thinking time, the
  timer ticks and its effect runs, the scoring effect runs, a perception sample starts or
  settles, the monitoring effect forces a confidence, the candidate advances, and the
  three parts of \<^verbatim>\<open>endInterview\<close> run. \<open>fire e r st\<close> is the state after the event
  \<open>e\<close>, handled by the render \<open>r\<close>, in the pending state \<open>st\<close>; it is \<open>None\<close>
  where the event cannot happen.
\<close>

datatype event =
    QuestionsLoaded "question_item list"
  | DurationSet int
  | ModelsReady bool
  | CameraSwitched bool
  | IntervalSet bool
  | RecognitionSet bool
  | Listening bool
  | Typed string
  | Spoken string
  | Thinking
  | Tick
  | Expired submission
  | Scored
  | SampleStarted "(nat \<times> nat) option"
  | SampleSettled detection
  | Forced int
  | Advanced submission
  | Shutdown
  | Saved
  | Submitted submission

fun fire :: "event \<Rightarrow> state \<Rightarrow> state \<Rightarrow> state option" where
  "fire (QuestionsLoaded qs) r st = Some (st\<lparr>questions := qs\<rparr>)"
| "fire (DurationSet minutes) r st = Some (st\<lparr>remainingTime := minutes * 60\<rparr>)"
| "fire (ModelsReady b) r st = Some (st\<lparr>modelsLoaded := b\<rparr>)"
| "fire (CameraSwitched b) r st = Some (st\<lparr>cameraActive := b\<rparr>)"
| "fire (IntervalSet b) r st = Some (st\<lparr>detectionInterval := b\<rparr>)"
| "fire (RecognitionSet b) r st = Some (st\<lparr>speechRecognition := b\<rparr>)"
| "fire (Listening b) r st = Some (st\<lparr>isListening := b\<rparr>)"
| "fire (Typed v) r st = Some (st\<lparr>userAnswer := v\<rparr>)"
| "fire (Spoken finalTranscript) r st = Some (speechResult finalTranscript st)"
| "fire Thinking r st = Some (handleThinkingTime r st)"
| "fire Tick r st = Some (timerTick st)"
| "fire (Expired env) r st = Some (timerEffect r env st)"
| "fire Scored r st = scoreAnswer r st"
| "fire (SampleStarted video) r st = Some (fst (detectFace_start r video st))"
| "fire (SampleSettled faces) r st = Some (detectFace_settle r faces st)"
| "fire (Forced randomChange) r st =
     (if - 15 \<le> randomChange \<and> randomChange \<le> 15
      then Some (forceConfidence r randomChange st) else None)"
| "fire (Advanced env) r st = Some (nextQuestion r env st)"
| "fire Shutdown r st = Some (endInterview_shutdown r st)"
| "fire Saved r st = Some (endInterview_save r st)"
| "fire (Submitted env) r st = Some (endInterview_submit r env st)"

text \<open>
  The states the component can be in: from the initial one, by any event, handled by any
  earlier render.
\<close>

inductive reachable :: "state \<Rightarrow> bool" where
  start: "reachable initialState"
| fired: "reachable st \<Longrightarrow> reachable r \<Longrightarrow> fire e r st = Some st' \<Longrightarrow> reachable st'"

text \<open>The three metric histories have one length.\<close>

definition aligned :: "state \<Rightarrow> bool" where
  "aligned st =
     (length (confidenceHistory st) = length (relevanceHistory st)
      \<and> length (relevanceHistory st) = length (communicationHistory st))"

section \<open>The specification's formulas\<close>

text \<open>
  Case ignored, as the specification has it, without reference to \<^verbatim>\<open>toLowerCase\<close>:
  the letters that have two cases, capital and small, are listed in pairs; two characters
  are the same letter when they are equal or the two members of a pair; a phrase occurs in
  a text when, at some position of the text, its characters are letter by letter the same
  as the text's.
\<close>

definition casePairs :: "(char \<times> char) list" where
  "casePairs =
     zip (''ABCDEFGHIJKLMNOPQRSTUVWXYZ''
          @ [CHR 0xC0, CHR 0xC1, CHR 0xC2, CHR 0xC3, CHR 0xC4, CHR 0xC5, CHR 0xC6, CHR 0xC7,
             CHR 0xC8, CHR 0xC9, CHR 0xCA, CHR 0xCB, CHR 0xCC, CHR 0xCD, CHR 0xCE, CHR 0xCF,
             CHR 0xD0, CHR 0xD1, CHR 0xD2, CHR 0xD3, CHR 0xD4, CHR 0xD5, CHR 0xD6,
             CHR 0xD8, CHR 0xD9, CHR 0xDA, CHR 0xDB, CHR 0xDC, CHR 0xDD, CHR 0xDE])
         (''abcdefghijklmnopqrstuvwxyz''
          @ [CHR 0xE0, CHR 0xE1, CHR 0xE2, CHR 0xE3, CHR 0xE4, CHR 0xE5, CHR 0xE6, CHR 0xE7,
             CHR 0xE8, CHR 0xE9, CHR 0xEA, CHR 0xEB, CHR 0xEC, CHR 0xED, CHR 0xEE, CHR 0xEF,
             CHR 0xF0, CHR 0xF1, CHR 0xF2, CHR 0xF3, CHR 0xF4, CHR 0xF5, CHR 0xF6,
             CHR 0xF8, CHR 0xF9, CHR 0xFA, CHR 0xFB, CHR 0xFC, CHR 0xFD, CHR 0xFE])"

definition sameLetter :: "char \<Rightarrow> char \<Rightarrow> bool" where
  "sameLetter a b = (a = b \<or> (a, b) \<in> set casePairs \<or> (b, a) \<in> set casePairs)"

definition occursIgnoringCase :: "string \<Rightarrow> string \<Rightarrow> bool" where
  "occursIgnoringCase phrase text =
     list_ex (\<lambda>i. list_all2 sameLetter phrase (take (length phrase) (drop i text)))
       [0..<length text + 1]"

text \<open>
  The relevance score as the specification words it: the number of key phrases that
  occur in the answer, case ignored, each counted once; a hundred times that number
  over \<open>min(5, keyPhrases.length)\<close>, in exact arithmetic, rounded and clamped to
  \<open>[0,100]\<close>; \<open>0\<close> for the empty answer.
\<close>

definition matchedCount :: "string \<Rightarrow> string list \<Rightarrow> nat" where
  "matchedCount answer phrases =
     length (filter (\<lambda>phrase. occursIgnoringCase phrase answer) phrases)"

definition spec_relevance :: "string \<Rightarrow> string list \<Rightarrow> int" where
  "spec_relevance answer phrases =
     (if answer = [] then 0
      else max 0 (min 100
             (Math_round (100 * of_nat (matchedCount answer phrases)
                          / of_nat (min 5 (length phrases))))))"

text \<open>
  The communication score as the specification words it: \<open>70\<close> minus the penalties
  plus the bonuses, at most \<open>40\<close> for a text of fewer than \<open>50\<close> characters, clamped
  to \<open>[0,100]\<close>.
\<close>

definition penalties :: "string \<Rightarrow> int" where
  "penalties text =
     5 * int (matches repeatedWord text) + 3 * int (matches missingPeriod text)
     + 10 * int (matches runOn text) + 2 * int (matches filler text)
     + 5 * int (matches agreementSingular text) + 5 * int (matches agreementPlural text)"

definition bonuses :: "string \<Rightarrow> int" where
  "bonuses text =
     5 * int (matches transition text) + 3 * int (matches completeSentence text)
     + 2 * int (matches technicalTerm text)"

definition spec_communication :: "string \<Rightarrow> int" where
  "spec_communication text =
     max 0 (min 100 (if length text < 50
                     then min (70 - penalties text + bonuses text) 40
                     else 70 - penalties text + bonuses text))"

text \<open>
  The snapshots of the metrics as the specification has them: one for the question on
  advance and one in \<^verbatim>\<open>end\<close>, which runs on its own, when the time is up, and on an
  advance from the last question, which is therefore two snapshots; no other event takes
  any. \<open>appended n r st st'\<close>: from \<open>st\<close> to \<open>st'\<close> each of the three histories
  has grown by \<open>n\<close> elements, the scores of the render \<open>r\<close>, and is otherwise the same.
\<close>

definition snapshots :: "event \<Rightarrow> state \<Rightarrow> nat" where
  "snapshots e r =
     (case e of
        Advanced env \<Rightarrow> (if int (currentQuestion r) < int (length (questions r)) - 1 then 1 else 2)
      | Saved \<Rightarrow> 1
      | Expired env \<Rightarrow> (if remainingTime r \<le> 0 then 1 else 0)
      | _ \<Rightarrow> 0)"

definition appended :: "nat \<Rightarrow> state \<Rightarrow> state \<Rightarrow> state \<Rightarrow> bool" where
  "appended n r st st' =
     (confidenceHistory st' = confidenceHistory st @ replicate n (confidenceScore r)
      \<and> relevanceHistory st' = relevanceHistory st @ replicate n (relevanceScore r)
      \<and> communicationHistory st' = communicationHistory st @ replicate n (communicationScore r))"

section \<open>Sample sessions\<close>

text \<open>The question and the answer of the specification's relevance example.\<close>

definition hooksQuestion :: question_item where
  "hooksQuestion =
     \<lparr>qid = 1, question = ''What are React hooks?'', expectedTopics = [],
      keyPhrases = [''state'', ''hook'', ''effect'']\<rparr>"

definition hooksAnswer :: string where
  "hooksAnswer = '' react hooks are great for state management''"

text \<open>
  The same question and answer in mixed case, the word \<open>state\<close> three times in the
  answer: read letter for letter, only \<open>State\<close> is in it.
\<close>

definition mixedQuestion :: question_item where
  "mixedQuestion =
     \<lparr>qid = 2, question = ''What are React hooks?'', expectedTopics = [],
      keyPhrases = [''State'', ''hook'', ''Effect'']\<rparr>"

definition mixedAnswer :: string where
  "mixedAnswer = ''React HOOKS keep State: state in, STATE out''"

text \<open>
  A short answer with a transition word, a complete sentence and a technical term
  (\<open>state\<close>; \<open>hooks\<close> is not the word \<open>hook\<close>).
\<close>

definition shortAnswer :: string where
  "shortAnswer = ''However, hooks hold state.''"

text \<open>
  A one-question session in which the candidate has answered, and what the submission
  meets: a stored token and a request that succeeds.
\<close>

definition answering :: state where
  "answering =
     initialState\<lparr>questions := [hooksQuestion], userAnswer := hooksAnswer,
        confidenceScore := 60, relevanceScore := 67, communicationScore := 40\<rparr>"

definition answeringMixed :: state where
  "answeringMixed = initialState\<lparr>questions := [mixedQuestion], userAnswer := mixedAnswer\<rparr>"

definition accepted :: submission where
  "accepted = \<lparr>token = Some ''jwt'', postResult = Created ''42''\<rparr>"

definition endedOnce :: state where
  "endedOnce = endInterview answering accepted answering"

definition endedTwice :: state where
  "endedTwice = endInterview endedOnce accepted endedOnce"

text \<open>A session without questions in which the candidate advances: it ends.\<close>

definition closed :: state where
  "closed = nextQuestion initialState accepted initialState"

text \<open>
  A four-question session at its second question.
\<close>

definition midSession :: state where
  "midSession =
     initialState\<lparr>questions := [hooksQuestion, hooksQuestion, hooksQuestion, hooksQuestion],
        currentQuestion := 1, userAnswer := hooksAnswer, speechToText := hooksAnswer,
        answers := [Some ''first answer''], confidenceHistory := [55],
        relevanceHistory := [33], communicationHistory := [40]\<rparr>"

text \<open>
  The perception loop. \<open>watching\<close> is the render in which the models are loaded and the
  polling interval is created (lines 1068 to 1133): the interval keeps calling the
  \<^verbatim>\<open>detectFace\<close> of that render. \<open>firstSample\<close> is the state after the first sample,
  a neutral face; the later samples are run by the same handler.
\<close>

definition watching :: state where
  "watching = initialState\<lparr>modelsLoaded := True, detectionInterval := True\<rparr>"

definition camera :: "(nat \<times> nat) option" where
  "camera = Some (640, 480)"

definition neutralFace :: face where
  "neutralFace key = (if key = ''neutral'' then Some 1 else Some 0)"

definition intensity_0_8 :: rat where
  "intensity_0_8 = toDouble (4 / 5)"

definition happyFace :: face where
  "happyFace key = (if key = ''happy'' then Some intensity_0_8 else Some 0)"

definition firstSample :: state where
  "firstSample = detectFace watching camera (Detected [neutralFace]) watching"

definition staleSmoothed :: state where
  "staleSmoothed = detectFace watching camera (Detected [happyFace]) firstSample"

definition staleNoFace :: state where
  "staleNoFace = detectFace watching camera (Detected []) firstSample"

text \<open>
  A sample in flight when the interview is ended: it starts, \<^verbatim>\<open>endInterview\<close> runs its
  first part, then the detection settles with a face.
\<close>

definition sampleInFlight :: "state \<times> bool" where
  "sampleInFlight = detectFace_start watching camera watching"

definition shutDown :: state where
  "shutDown = endInterview_shutdown watching (fst sampleInFlight)"

definition settledLate :: state where
  "settledLate = detectFace_settle watching (Detected [happyFace]) shutDown"

section \<open>Properties of the numbers and strings\<close>

lemma roundHalfEven_ge: "of_int z \<le> y \<Longrightarrow> z \<le> roundHalfEven y"
proof -
  assume "of_int z \<le> y"
  then have "z \<le> \<lfloor>y\<rfloor>" by (simp add: le_floor_iff)
  moreover have "\<lfloor>y\<rfloor> \<le> roundHalfEven y" by (simp add: roundHalfEven_def Let_def)
  ultimately show ?thesis by linarith
qed

lemma pow2_pos: "0 < pow2 k"
  by (simp add: pow2_def)

lemma toDouble_nonneg: "0 \<le> x \<Longrightarrow> 0 \<le> toDouble x"
proof -
  assume x: "0 \<le> x"
  show ?thesis
  proof (cases "x = 0")
    case True then show ?thesis by (simp add: toDouble_def)
  next
    case False
    with x have pos: "0 < x" by simp
    let ?u = "pow2 (binade \<bar>x\<bar> - 52)"
    have "0 \<le> \<bar>x\<bar> / ?u" using pow2_pos [of "binade \<bar>x\<bar> - 52"] by simp
    then have "0 \<le> roundHalfEven (\<bar>x\<bar> / ?u)" using roundHalfEven_ge [of 0] by simp
    then show ?thesis using pos pow2_pos [of "binade \<bar>x\<bar> - 52"]
      by (simp add: toDouble_def Let_def)
  qed
qed

lemma binade_lower: "1 \<le> x \<Longrightarrow> 2 ^ nat (binade x) \<le> x"
proof -
  assume x: "1 \<le> x"
  then have fl: "0 < \<lfloor>x\<rfloor>" by (simp add: floor_less_iff less_floor_iff)
  have "(2::int) ^ nat (bitlen \<lfloor>x\<rfloor> - 1) \<le> \<lfloor>x\<rfloor>" using bitlen_bounds [OF fl] by simp
  then have "of_int ((2::int) ^ nat (bitlen \<lfloor>x\<rfloor> - 1)) \<le> (of_int \<lfloor>x\<rfloor> :: rat)"
    by (simp only: of_int_le_iff)
  also have "\<dots> \<le> x" by simp
  finally show ?thesis using x by (simp add: binade_def)
qed

text \<open>Rounding to a double never crosses an integer below \<open>2 ^ 53\<close>.\<close>

lemma toDouble_ge_int:
  assumes "of_int n \<le> x" and "0 < n" and "n < 2 ^ 53"
  shows "of_int n \<le> toDouble x"
proof -
  from assms have pos: "0 < x" and one: "1 \<le> x"
    by (smt (verit) of_int_0_less_iff of_int_less_iff less_le_trans of_int_1_le_iff order_trans)+
  let ?k = "binade x"
  let ?u = "pow2 (?k - 52)"
  have td: "toDouble x = of_int (roundHalfEven (x / ?u)) * ?u"
    using pos by (simp add: toDouble_def Let_def)
  show ?thesis
  proof (cases "?k \<le> 52")
    case True
    define j where "j = nat (52 - ?k)"
    have u: "?u = 1 / 2 ^ j"
      using True by (auto simp: pow2_def j_def)
    have "of_int (n * 2 ^ j) \<le> x / ?u" using assms(1) by (simp add: u)
    then have "n * 2 ^ j \<le> roundHalfEven (x / ?u)" by (rule roundHalfEven_ge)
    then have "of_int (n * 2 ^ j) \<le> (of_int (roundHalfEven (x / ?u)) :: rat)"
      by (simp only: of_int_le_iff)
    then show ?thesis by (simp add: td u field_simps)
  next
    case False
    define j where "j = nat (?k - 52)"
    have k: "nat ?k = j + 52" using False by (simp add: j_def)
    have u: "?u = 2 ^ j" using False by (simp add: pow2_def j_def)
    have "(2::rat) ^ (j + 52) \<le> x" using binade_lower [OF one] by (simp add: k)
    then have "of_int (2 ^ 52) \<le> x / ?u" by (simp add: u power_add field_simps)
    then have "2 ^ 52 \<le> roundHalfEven (x / ?u)" by (rule roundHalfEven_ge)
    then have "(of_int (2 ^ 52) :: rat) \<le> of_int (roundHalfEven (x / ?u))"
      by (simp only: of_int_le_iff)
    then have "(2::rat) ^ 52 * 2 ^ j \<le> toDouble x" by (simp add: td u)
    moreover have "(of_int n :: rat) < 2 ^ 53" using assms(3)
      by (metis of_int_less_iff of_int_numeral of_int_power)
    moreover have "(2::rat) ^ 53 \<le> 2 ^ 52 * 2 ^ j" using False
      by (cases j) (auto simp: j_def)
    ultimately show ?thesis by linarith
  qed
qed

text \<open>
  How far a double is from the number it stands for: at most one part in \<open>2 ^ 53\<close>.
\<close>

lemma pow2_powi: "pow2 k = 2 powi k"
  by (simp add: pow2_def power_int_def field_simps)

lemma roundHalfEven_le: "of_int (roundHalfEven y) \<le> y + 1 / 2"
proof -
  have f: "of_int \<lfloor>y\<rfloor> \<le> y" by simp
  consider "y - of_int \<lfloor>y\<rfloor> < 1 / 2" | "1 / 2 \<le> y - of_int \<lfloor>y\<rfloor>" by linarith
  then show ?thesis
  proof cases
    case 1
    then have "(of_int (roundHalfEven y) :: rat) = of_int \<lfloor>y\<rfloor>"
      by (simp add: roundHalfEven_def Let_def)
    with f show ?thesis by linarith
  next
    case 2
    have "roundHalfEven y \<le> \<lfloor>y\<rfloor> + 1" by (simp add: roundHalfEven_def Let_def)
    then have "(of_int (roundHalfEven y) :: rat) \<le> of_int (\<lfloor>y\<rfloor> + 1)"
      by (simp only: of_int_le_iff)
    then show ?thesis using 2 by simp
  qed
qed

lemma binade_lower_all:
  assumes "0 < x"
  shows "pow2 (binade x) \<le> x"
proof (cases "1 \<le> x")
  case True
  then have "0 < \<lfloor>x\<rfloor>" by (simp add: less_floor_iff)
  then have "1 \<le> bitlen \<lfloor>x\<rfloor>" by (simp add: bitlen_alt_def)
  then have "0 \<le> binade x" using True by (simp add: binade_def)
  then show ?thesis using binade_lower [OF True] by (simp add: pow2_def)
next
  case False
  define c where "c = \<lceil>1 / x\<rceil>"
  have inv: "1 < 1 / x" using False assms by (simp add: field_simps)
  then have c2: "2 \<le> c" unfolding c_def by linarith
  define b where "b = bitlen (c - 1)"
  have "0 < c - 1" using c2 by simp
  then have "c - 1 < 2 ^ nat b" and b1: "1 \<le> b"
    unfolding b_def using bitlen_bounds [of "c - 1"] by (auto simp: bitlen_alt_def)
  then have "c \<le> 2 ^ nat b" by simp
  then have "(of_int c :: rat) \<le> of_int (2 ^ nat b)" by (simp only: of_int_le_iff)
  moreover have "1 / x \<le> of_int c" unfolding c_def by linarith
  moreover have "(of_int (2 ^ nat b) :: rat) = 2 ^ nat b" by simp
  ultimately have "1 / x \<le> 2 ^ nat b" by linarith
  then have "1 / 2 ^ nat b \<le> x" using assms by (simp add: field_simps)
  moreover have "binade x = - b" using False by (simp add: binade_def b_def c_def)
  ultimately show ?thesis using b1 by (simp add: pow2_def)
qed

lemma toDouble_upper:
  assumes "0 < x"
  shows "toDouble x \<le> x + x / 2 ^ 53"
proof -
  let ?u = "pow2 (binade x - 52)"
  have u: "?u = pow2 (binade x) / 2 ^ 52"
    by (simp add: pow2_powi power_int_diff)
  have upos: "0 < ?u" by (rule pow2_pos)
  have "toDouble x = of_int (roundHalfEven (x / ?u)) * ?u"
    using assms by (simp add: toDouble_def Let_def)
  also have "\<dots> \<le> (x / ?u + 1 / 2) * ?u"
    using roundHalfEven_le [of "x / ?u"] upos by (simp add: mult_right_mono)
  also have "\<dots> = x + ?u / 2" using upos by (simp add: field_simps)
  also have "\<dots> \<le> x + x / 2 ^ 53"
    using binade_lower_all [OF assms] by (simp add: u)
  finally show ?thesis .
qed

lemma roundHalfEven_ge_half: "y - 1 / 2 \<le> of_int (roundHalfEven y)"
proof -
  have f: "y < of_int \<lfloor>y\<rfloor> + 1" by linarith
  consider "y - of_int \<lfloor>y\<rfloor> \<le> 1 / 2" | "1 / 2 < y - of_int \<lfloor>y\<rfloor>" by linarith
  then show ?thesis
  proof cases
    case 1
    have "\<lfloor>y\<rfloor> \<le> roundHalfEven y" by (simp add: roundHalfEven_def Let_def)
    then have "(of_int \<lfloor>y\<rfloor> :: rat) \<le> of_int (roundHalfEven y)" by (simp only: of_int_le_iff)
    with 1 show ?thesis by linarith
  next
    case 2
    then have "(of_int (roundHalfEven y) :: rat) = of_int \<lfloor>y\<rfloor> + 1"
      by (simp add: roundHalfEven_def Let_def)
    with f show ?thesis by linarith
  qed
qed

lemma toDouble_lower:
  assumes "0 < x"
  shows "x - x / 2 ^ 53 \<le> toDouble x"
proof -
  let ?u = "pow2 (binade x - 52)"
  have u: "?u = pow2 (binade x) / 2 ^ 52"
    by (simp add: pow2_powi power_int_diff)
  have upos: "0 < ?u" by (rule pow2_pos)
  have "x - x / 2 ^ 53 \<le> x - ?u / 2"
    using binade_lower_all [OF assms] by (simp add: u)
  also have "\<dots> = (x / ?u - 1 / 2) * ?u" using upos by (simp add: field_simps)
  also have "\<dots> \<le> of_int (roundHalfEven (x / ?u)) * ?u"
    using roundHalfEven_ge_half [of "x / ?u"] upos by (simp add: mult_right_mono)
  also have "\<dots> = toDouble x" using assms by (simp add: toDouble_def Let_def)
  finally show ?thesis .
qed

lemma toDouble_near:
  assumes "0 \<le> x"
  shows "x - x / 2 ^ 53 \<le> toDouble x \<and> toDouble x \<le> x + x / 2 ^ 53"
proof (cases "x = 0")
  case True
  then show ?thesis by (simp add: toDouble_def)
next
  case False
  with assms have "0 < x" by simp
  then show ?thesis using toDouble_lower toDouble_upper by blast
qed


lemma toDouble_ge_half:
  assumes "of_int m / 2 \<le> x" and "0 < m" and "m < 2 ^ 53"
  shows "of_int m / 2 \<le> toDouble x"
proof -
  have "(0::rat) < of_int m / 2" using assms(2) by simp
  with assms(1) have pos: "0 < x" by linarith
  let ?k = "binade x"
  let ?u = "pow2 (?k - 52)"
  have upos: "0 < ?u" by (rule pow2_pos)
  have td: "toDouble x = of_int (roundHalfEven (x / ?u)) * ?u"
    using pos by (simp add: toDouble_def Let_def)
  show ?thesis
  proof (cases "?k \<le> 51")
    case True
    define j where "j = nat (51 - ?k)"
    have "nat (52 - ?k) = Suc j" using True by (simp add: j_def)
    then have u: "?u = 1 / (2 * 2 ^ j)"
      using True by (simp add: pow2_def)
    have "of_int m \<le> 2 * x" using assms(1) by simp
    then have "of_int m * 2 ^ j \<le> 2 * x * 2 ^ j"
      by (rule mult_right_mono) simp
    then have "of_int (m * 2 ^ j) \<le> x / ?u" by (simp add: u mult.assoc)
    then have "m * 2 ^ j \<le> roundHalfEven (x / ?u)" by (rule roundHalfEven_ge)
    then have "of_int (m * 2 ^ j) \<le> (of_int (roundHalfEven (x / ?u)) :: rat)"
      by (simp only: of_int_le_iff)
    then have "of_int m * 2 ^ j * ?u \<le> of_int (roundHalfEven (x / ?u)) * ?u"
      using upos by simp
    moreover have "of_int m * 2 ^ j * ?u = of_int m / 2" by (simp add: u)
    ultimately show ?thesis by (simp only: td)
  next
    case False
    then have k0: "0 \<le> ?k" by simp
    have lower: "pow2 ?k \<le> x" by (rule binade_lower_all [OF pos])
    have u: "?u = pow2 ?k / 2 ^ 52" by (simp add: pow2_powi power_int_diff)
    have "2 ^ 52 * ?u \<le> x" using lower by (simp add: u)
    then have "2 ^ 52 \<le> x / ?u" using upos by (simp add: pos_le_divide_eq)
    then have "of_int (2 ^ 52) \<le> x / ?u" by simp
    then have "2 ^ 52 \<le> roundHalfEven (x / ?u)" by (rule roundHalfEven_ge)
    then have "(of_int (2 ^ 52) :: rat) \<le> of_int (roundHalfEven (x / ?u))"
      by (simp only: of_int_le_iff)
    then have "of_int (2 ^ 52) * ?u \<le> of_int (roundHalfEven (x / ?u)) * ?u"
      using upos by simp
    then have "pow2 ?k \<le> toDouble x" by (simp add: u td)
    moreover have "(2::rat) ^ 52 \<le> pow2 ?k"
    proof -
      have "52 \<le> nat ?k" using False by simp
      then have "(2::rat) ^ 52 \<le> 2 ^ nat ?k" by (intro power_increasing) auto
      then show ?thesis using k0 by (simp add: pow2_def)
    qed
    moreover have "(of_int m :: rat) / 2 < 2 ^ 52"
    proof -
      have "(of_int m :: rat) < of_int (2 ^ 53)" using assms(3) by (simp only: of_int_less_iff)
      then show ?thesis by simp
    qed
    ultimately show ?thesis by linarith
  qed
qed

lemma Math_round_mono: "x \<le> y \<Longrightarrow> Math_round x \<le> Math_round y"
  by (simp add: Math_round_def floor_mono)

lemma Math_round_int: "Math_round (of_int n) = n"
  unfolding Math_round_def by linarith

text \<open>
  The quotient of a sum below \<open>2 ^ 52\<close> by a count, computed in doubles, rounds to the
  same integer as the exact quotient.
\<close>

lemma mean_round_exact:
  assumes "0 \<le> s" and "0 < n" and "s < 2 ^ 52"
  shows "Math_round (fdiv (of_int s) (of_nat n)) = Math_round (of_int s / of_nat n)"
proof (cases "s = 0")
  case True
  then show ?thesis by (simp add: fdiv_def toDouble_def)
next
  case False
  with assms have spos: "0 < s" by simp
  define q :: rat where "q = of_int s / of_nat n"
  define k where "k = Math_round q"
  have qpos: "0 < q" using spos assms(2) by (simp add: q_def)
  have k1: "of_int k \<le> q + 1 / 2" and k2: "q + 1 / 2 < of_int k + 1"
    unfolding k_def Math_round_def by linarith+
  have kpos: "0 \<le> k" unfolding k_def Math_round_def using qpos by simp
  have nq: "of_nat n * q = of_int s" using assms(2) by (simp add: q_def)
  have "of_int k \<le> toDouble q + 1 / 2"
  proof (cases "k = 0")
    case True
    then show ?thesis using toDouble_nonneg [of q] qpos by simp
  next
    case False
    then have m: "0 < 2 * k - 1" using kpos by simp
    have "of_int k \<le> of_int s + (1::rat)"
    proof -
      have "q \<le> of_int s" using spos assms(2) unfolding q_def
        by (simp add: field_simps mult_le_cancel_left1)
      then show ?thesis using k1 by linarith
    qed
    then have "k \<le> s + 1" by (metis of_int_1 of_int_add of_int_le_iff)
    then have "2 * k - 1 < 2 ^ 53" using assms(3) by simp
    moreover have "of_int (2 * k - 1) / 2 \<le> q" using k1 by simp
    ultimately have "of_int (2 * k - 1) / 2 \<le> toDouble q"
      using m by (intro toDouble_ge_half) simp_all
    then show ?thesis by simp
  qed
  moreover have "toDouble q + 1 / 2 < of_int k + 1"
  proof -
    have "0 < (2 * k + 1) * int n - 2 * s"
    proof -
      have "of_nat n * (q + 1 / 2) < of_nat n * (of_int k + 1 :: rat)"
        using k2 assms(2) by (simp add: mult_strict_left_mono)
      then have "(of_int (2 * s) :: rat) < of_int ((2 * k + 1) * int n)"
        using nq by (simp add: algebra_simps)
      then have "2 * s < (2 * k + 1) * int n" by (simp only: of_int_less_iff)
      then show ?thesis by simp
    qed
    then have "1 \<le> (2 * k + 1) * int n - 2 * s" by simp
    then have "(of_int 1 :: rat) \<le> of_int ((2 * k + 1) * int n - 2 * s)"
      by (simp only: of_int_le_iff)
    then have gap: "1 \<le> (2 * of_int k + 1) * of_nat n - 2 * (of_nat n * q)"
      by (simp add: nq)
    have "(of_int (2 * s) :: rat) < of_int (2 ^ 53)"
      using assms(3) by (simp only: of_int_less_iff) simp
    then have small: "2 * (of_nat n * q) < 2 ^ 53" by (simp add: nq)
    have npos: "(0::rat) < of_nat n" using assms(2) by simp
    have "of_nat n * (2 * toDouble q) \<le> of_nat n * (2 * (q + q / 2 ^ 53))"
      using toDouble_upper [OF qpos] npos by (simp add: mult_left_mono)
    also have "\<dots> = 2 * (of_nat n * q) + 2 * (of_nat n * q) / 2 ^ 53"
      by (simp add: algebra_simps)
    also have "\<dots> < 2 * (of_nat n * q) + 1" using small by simp
    also have "\<dots> \<le> (2 * of_int k + 1) * of_nat n" using gap by simp
    finally have "of_nat n * (2 * toDouble q) < of_nat n * (2 * of_int k + 1)"
      by (simp add: mult.commute)
    then have "2 * toDouble q < 2 * of_int k + 1" using npos by simp
    then show ?thesis by simp
  qed
  ultimately have "Math_round (toDouble q) = k"
    unfolding Math_round_def by linarith
  then show ?thesis by (simp add: fdiv_def q_def k_def)
qed

lemma literals:
  "lit_0_3 = 5404319552844595 / 18014398509481984"
  "lit_0_4 = 3602879701896397 / 9007199254740992"
  "lit_0_7 = 3152519739159347 / 4503599627370496"
  by code_simp+

lemma product_range:
  fixes a :: int and w :: rat
  assumes "0 \<le> a" "a \<le> 100" "0 \<le> w" "w \<le> 1"
  shows "0 \<le> of_int a * w \<and> of_int a * w \<le> 100"
proof -
  have a0: "(0::rat) \<le> of_int a" using assms(1) by simp
  have "(of_int a :: rat) \<le> of_int 100" using assms(2) by (simp only: of_int_le_iff)
  then have a1: "(of_int a :: rat) \<le> 100" by simp
  have "of_int a * w \<le> of_int a * 1" using assms(4) a0 by (rule mult_left_mono)
  with a1 have "of_int a * w \<le> 100" by simp
  moreover have "0 \<le> of_int a * w" using a0 assms(3) by (rule mult_nonneg_nonneg)
  ultimately show ?thesis by simp
qed

text \<open>A weighted sum of three scores, computed in doubles, is within \<open>2 ^ - 40\<close> of the exact one.\<close>

lemma weighted_sum_near:
  fixes a b c :: int and wa wb wc :: rat
  assumes "0 \<le> a" "a \<le> 100" "0 \<le> b" "b \<le> 100" "0 \<le> c" "c \<le> 100"
    and "0 \<le> wa" "wa \<le> 1" "0 \<le> wb" "wb \<le> 1" "0 \<le> wc" "wc \<le> 1"
  shows "\<bar>fadd (fadd (fmul (of_int a) wa) (fmul (of_int b) wb)) (fmul (of_int c) wc)
          - (of_int a * wa + of_int b * wb + of_int c * wc)\<bar> \<le> 1 / 2 ^ 40"
proof -
  define e :: rat where "e = 1 / 2 ^ 53"
  define pa where "pa = of_int a * wa"
  define pb where "pb = of_int b * wb"
  define pc where "pc = of_int c * wc"
  have ra: "0 \<le> pa" "pa \<le> 100"
    using product_range [OF assms(1,2,7,8)] by (simp_all add: pa_def)
  have rb: "0 \<le> pb" "pb \<le> 100"
    using product_range [OF assms(3,4,9,10)] by (simp_all add: pb_def)
  have rc: "0 \<le> pc" "pc \<le> 100"
    using product_range [OF assms(5,6,11,12)] by (simp_all add: pc_def)
  define xa where "xa = toDouble pa"
  define xb where "xb = toDouble pb"
  define xc where "xc = toDouble pc"
  have na: "pa - pa * e \<le> xa" "xa \<le> pa + pa * e"
    using toDouble_near [OF ra(1)] by (simp_all add: xa_def e_def)
  have nb: "pb - pb * e \<le> xb" "xb \<le> pb + pb * e"
    using toDouble_near [OF rb(1)] by (simp_all add: xb_def e_def)
  have nc: "pc - pc * e \<le> xc" "xc \<le> pc + pc * e"
    using toDouble_near [OF rc(1)] by (simp_all add: xc_def e_def)
  have e: "0 < e" "e \<le> 1 / 2 ^ 53" by (simp_all add: e_def)
  have xa0: "0 \<le> xa" unfolding xa_def by (rule toDouble_nonneg [OF ra(1)])
  have xb0: "0 \<le> xb" unfolding xb_def by (rule toDouble_nonneg [OF rb(1)])
  have xc0: "0 \<le> xc" unfolding xc_def by (rule toDouble_nonneg [OF rc(1)])
  define s1 where "s1 = toDouble (xa + xb)"
  have n1: "(xa + xb) - (xa + xb) * e \<le> s1" "s1 \<le> (xa + xb) + (xa + xb) * e"
    using toDouble_near [of "xa + xb"] xa0 xb0 by (simp_all add: s1_def e_def)
  have s10: "0 \<le> s1" unfolding s1_def using xa0 xb0 by (intro toDouble_nonneg) simp
  define s2 where "s2 = toDouble (s1 + xc)"
  have n2: "(s1 + xc) - (s1 + xc) * e \<le> s2" "s2 \<le> (s1 + xc) + (s1 + xc) * e"
    using toDouble_near [of "s1 + xc"] s10 xc0 by (simp_all add: s2_def e_def)
  have pae: "pa * e \<le> 100 * e" "pb * e \<le> 100 * e" "pc * e \<le> 100 * e"
    using ra rb rc e(1) by (simp_all add: mult_right_mono)
  have e1: "100 * e \<le> 1" "202 * e \<le> 1" by (simp_all add: e_def)
  have xab: "xa \<le> 101" "xb \<le> 101" "xc \<le> 101"
  proof -
    show "xa \<le> 101" using na(2) pae(1) ra(2) e1(1) by linarith
    show "xb \<le> 101" using nb(2) pae(2) rb(2) e1(1) by linarith
    show "xc \<le> 101" using nc(2) pae(3) rc(2) e1(1) by linarith
  qed
  have "xa + xb \<le> 202" using xab by linarith
  then have xabe: "(xa + xb) * e \<le> 202 * e" using e(1) by (simp add: mult_right_mono)
  have s1b: "s1 \<le> 203" using n1(2) xabe xab e1(2) by linarith
  have "s1 + xc \<le> 304" using s1b xab by linarith
  then have s1e: "(s1 + xc) * e \<le> 304 * e" using e(1) by (simp add: mult_right_mono)
  have up: "xa \<le> pa + 100 * e" "xb \<le> pb + 100 * e" "xc \<le> pc + 100 * e"
    "s1 \<le> xa + xb + 202 * e" "s2 \<le> s1 + xc + 304 * e"
  proof -
    show "xa \<le> pa + 100 * e" using na(2) pae(1) by linarith
    show "xb \<le> pb + 100 * e" using nb(2) pae(2) by linarith
    show "xc \<le> pc + 100 * e" using nc(2) pae(3) by linarith
    show "s1 \<le> xa + xb + 202 * e" using n1(2) xabe by linarith
    show "s2 \<le> s1 + xc + 304 * e" using n2(2) s1e by linarith
  qed
  have lo: "pa - 100 * e \<le> xa" "pb - 100 * e \<le> xb" "pc - 100 * e \<le> xc"
    "xa + xb - 202 * e \<le> s1" "s1 + xc - 304 * e \<le> s2"
  proof -
    show "pa - 100 * e \<le> xa" using na(1) pae(1) by linarith
    show "pb - 100 * e \<le> xb" using nb(1) pae(2) by linarith
    show "pc - 100 * e \<le> xc" using nc(1) pae(3) by linarith
    show "xa + xb - 202 * e \<le> s1" using n1(1) xabe by linarith
    show "s1 + xc - 304 * e \<le> s2" using n2(1) s1e by linarith
  qed
  have "s2 - (pa + pb + pc) \<le> 1000 * e" using up e(1) by linarith
  moreover have "- (1000 * e) \<le> s2 - (pa + pb + pc)" using lo e(1) by linarith
  ultimately have "\<bar>s2 - (pa + pb + pc)\<bar> \<le> 1000 * e" by (simp add: abs_le_iff)
  moreover have "1000 * e \<le> 1 / 2 ^ 40" by (simp add: e_def)
  ultimately show ?thesis
    by (simp add: s2_def s1_def xa_def xb_def xc_def pa_def pb_def pc_def fadd_def fmul_def)
qed

lemma startsWith_prefix: "startsWith s p \<longleftrightarrow> prefix p s"
  by (induction s p rule: startsWith.induct) auto

lemma includes_str_sublist: "includes_str s p \<longleftrightarrow> sublist p s"
  by (induction s) (auto simp: startsWith_prefix sublist_Cons_right)

text \<open>
  Lower case and the pairs of letters. The pairs are the capital letters with the small
  ones \<open>32\<close> codes further; two characters have the same lower case exactly when they
  are the same letter; a phrase put in lower case is included in a text put in lower case
  exactly when it occurs in it, case ignored.
\<close>

lemma casePairs_codes:
  "map (map_prod of_char of_char) casePairs
     = map (\<lambda>n. (n, n + 32)) ([65..<91] @ [192..<215] @ [216..<223] :: nat list)"
  by code_simp

lemma upperCodes:
  "(x::nat) \<in> set ([65..<91] @ [192..<215] @ [216..<223])
     \<longleftrightarrow> (65 \<le> x \<and> x \<le> 90) \<or> (192 \<le> x \<and> x \<le> 222 \<and> x \<noteq> 215)"
  unfolding set_append set_upt Un_iff atLeastLessThan_iff by presburger

lemma casePairs_iff:
  "(u, l) \<in> set casePairs \<longleftrightarrow>
     ((65 \<le> (of_char u :: nat) \<and> (of_char u :: nat) \<le> 90)
        \<or> (192 \<le> (of_char u :: nat) \<and> (of_char u :: nat) \<le> 222 \<and> (of_char u :: nat) \<noteq> 215))
     \<and> (of_char l :: nat) = of_char u + 32"
proof -
  define codes :: "nat list" where "codes = [65..<91] @ [192..<215] @ [216..<223]"
  have "inj (map_prod (of_char :: char \<Rightarrow> nat) (of_char :: char \<Rightarrow> nat))"
    by (intro prod.inj_map injI) simp_all
  then have "(u, l) \<in> set casePairs \<longleftrightarrow>
      map_prod of_char of_char (u, l)
        \<in> map_prod (of_char :: char \<Rightarrow> nat) (of_char :: char \<Rightarrow> nat) ` set casePairs"
    by (simp only: inj_image_mem_iff)
  also have "map_prod (of_char :: char \<Rightarrow> nat) (of_char :: char \<Rightarrow> nat) ` set casePairs
      = set (map (\<lambda>n. (n, n + 32)) codes)"
    unfolding codes_def by (simp only: casePairs_codes [symmetric] set_map)
  also have "map_prod of_char of_char (u, l) \<in> set (map (\<lambda>n. (n, n + 32)) codes)
      \<longleftrightarrow> (of_char u :: nat) \<in> set codes \<and> (of_char l :: nat) = of_char u + 32"
    by auto
  finally show ?thesis unfolding codes_def upperCodes .
qed

lemma lowerChar_code:
  "(of_char (lowerChar c) :: nat) =
     (if (65 \<le> (of_char c :: nat) \<and> (of_char c :: nat) \<le> 90)
         \<or> (192 \<le> (of_char c :: nat) \<and> (of_char c :: nat) \<le> 222 \<and> (of_char c :: nat) \<noteq> 215)
      then of_char c + 32 else of_char c)"
  by (simp add: lowerChar_def Let_def)

lemma lowerChar_sameLetter: "lowerChar a = lowerChar b \<longleftrightarrow> sameLetter a b"
proof -
  have "lowerChar a = lowerChar b \<longleftrightarrow> (of_char (lowerChar a) :: nat) = of_char (lowerChar b)"
    by simp
  also have "\<dots> \<longleftrightarrow> ((of_char a :: nat) = of_char b \<or> (a, b) \<in> set casePairs
       \<or> (b, a) \<in> set casePairs)"
    unfolding lowerChar_code casePairs_iff by presburger
  finally show ?thesis by (simp add: sameLetter_def)
qed

lemma same_lower_case:
  "list_all2 sameLetter p q \<longleftrightarrow> map lowerChar p = map lowerChar q"
proof -
  have "list_all2 sameLetter p q \<longleftrightarrow> list_all2 (\<lambda>a b. lowerChar a = lowerChar b) p q"
    by (simp only: lowerChar_sameLetter)
  also have "\<dots> \<longleftrightarrow> list_all2 (=) (map lowerChar p) (map lowerChar q)"
    by (simp add: list_all2_map1 list_all2_map2)
  finally show ?thesis by (simp add: list_all2_eq)
qed

lemma sublist_at: "sublist ps xs \<longleftrightarrow> (\<exists>i \<le> length xs. take (length ps) (drop i xs) = ps)"
proof
  assume "sublist ps xs"
  then obtain pre suf where "xs = pre @ ps @ suf" by (auto simp: sublist_def)
  then have "length pre \<le> length xs \<and> take (length ps) (drop (length pre) xs) = ps" by simp
  then show "\<exists>i \<le> length xs. take (length ps) (drop i xs) = ps" by blast
next
  assume "\<exists>i \<le> length xs. take (length ps) (drop i xs) = ps"
  then obtain i where i: "take (length ps) (drop i xs) = ps" by blast
  have "xs = take i xs @ take (length ps) (drop i xs) @ drop (length ps) (drop i xs)"
    by (simp only: append_take_drop_id)
  then have "xs = take i xs @ ps @ drop (length ps) (drop i xs)" by (simp only: i)
  then show "sublist ps xs" unfolding sublist_def by blast
qed

lemma bex_upto: "(\<exists>i \<in> set [0..<n + 1]. P i) \<longleftrightarrow> (\<exists>i \<le> n. P i)"
proof -
  have "set [0..<n + 1] = {i. i \<le> n}" by auto
  then show ?thesis by blast
qed

lemma includes_toLowerCase:
  "includes_str (toLowerCase text) (toLowerCase phrase) \<longleftrightarrow> occursIgnoringCase phrase text"
proof -
  have "occursIgnoringCase phrase text
      \<longleftrightarrow> (\<exists>i \<le> length text. map lowerChar phrase
                = map lowerChar (take (length phrase) (drop i text)))"
    unfolding occursIgnoringCase_def list_ex_iff bex_upto same_lower_case ..
  also have "\<dots> \<longleftrightarrow> (\<exists>i \<le> length (map lowerChar text).
       take (length (map lowerChar phrase)) (drop i (map lowerChar text)) = map lowerChar phrase)"
    by (auto simp: take_map drop_map)
  also have "\<dots> \<longleftrightarrow> sublist (map lowerChar phrase) (map lowerChar text)"
    by (rule sublist_at [symmetric])
  finally show ?thesis by (simp add: includes_str_sublist toLowerCase_def)
qed

lemma foldl_count: "foldl (\<lambda>n x. if P x then n + 1 else n) k xs = k + length (filter P xs)"
  by (induction xs arbitrary: k) auto

lemma matchedPhrases_count: "matchedPhrases answer phrases = matchedCount answer phrases"
  by (simp add: matchedPhrases_def matchedCount_def foldl_count includes_toLowerCase)

section \<open>Relevance\<close>

text \<open>
  The quotient and the product of the source are rounded to doubles, the specification's
  formula is exact. Below the cap the two agree case by case; from the cap on both are
  at least \<open>100\<close>.
\<close>

lemma ratio_small:
  assumes "m < mx" and "mx \<le> 5"
  shows "Math_round (fmul (fdiv (of_nat m) (of_nat mx)) 100)
           = Math_round (100 * of_nat m / of_nat mx)"
proof -
  have "mx \<in> {1, 2, 3, 4, 5}" using assms by auto
  moreover have "m \<in> {0, 1, 2, 3, 4}" using assms by auto
  moreover have "\<forall>a \<in> set [0, 1, 2, 3, 4 :: nat]. \<forall>b \<in> set [1, 2, 3, 4, 5 :: nat]. a < b \<longrightarrow>
      Math_round (fmul (fdiv (of_nat a) (of_nat b)) 100) = Math_round (100 * of_nat a / of_nat b)"
    by code_simp
  ultimately show ?thesis using assms(1) by auto
qed

lemma ratio_large:
  assumes "mx \<le> m" and "0 < mx"
  shows "100 \<le> Math_round (fmul (fdiv (of_nat m) (of_nat mx)) 100)"
proof -
  have "(1::rat) \<le> of_nat m / of_nat mx" using assms by simp
  then have "(of_int 1 :: rat) \<le> fdiv (of_nat m) (of_nat mx)"
    unfolding fdiv_def by (intro toDouble_ge_int) simp_all
  then have "(of_int 100 :: rat) \<le> fdiv (of_nat m) (of_nat mx) * 100" by simp
  then have "(of_int 100 :: rat) \<le> fmul (fdiv (of_nat m) (of_nat mx)) 100"
    unfolding fmul_def by (intro toDouble_ge_int) simp_all
  then have "Math_round (of_int 100) \<le> Math_round (fmul (fdiv (of_nat m) (of_nat mx)) 100)"
    by (rule Math_round_mono)
  then show ?thesis by (simp only: Math_round_int)
qed

lemma newRelevanceScore_exact:
  assumes "phrases \<noteq> []"
  shows "newRelevanceScore answer phrases =
           Some (max 0 (min 100 (Math_round (100 * of_nat (matchedCount answer phrases)
                                   / of_nat (min 5 (length phrases))))))"
proof -
  let ?m = "matchedCount answer phrases"
  let ?mx = "min 5 (length phrases)"
  have mx: "0 < ?mx" "?mx \<le> 5" using assms by auto
  have nonneg: "0 \<le> Math_round (100 * of_nat ?m / of_nat ?mx)"
  proof -
    have "Math_round (of_int 0) \<le> Math_round (100 * of_nat ?m / of_nat ?mx)"
      by (rule Math_round_mono) simp
    then show ?thesis by (simp only: Math_round_int)
  qed
  have "min (Math_round (fmul (fdiv (of_nat ?m) (of_nat ?mx)) 100)) 100
          = min 100 (Math_round (100 * of_nat ?m / of_nat ?mx))"
  proof (cases "?m < ?mx")
    case True
    then show ?thesis using ratio_small [OF True mx(2)] by simp
  next
    case False
    then have le: "?mx \<le> ?m" by arith
    have "(of_int 100 :: rat) \<le> 100 * of_nat ?m / of_nat ?mx" using le mx(1)
      by (simp add: field_simps)
    then have "Math_round (of_int 100) \<le> Math_round (100 * of_nat ?m / of_nat ?mx)"
      by (rule Math_round_mono)
    then have "100 \<le> Math_round (100 * of_nat ?m / of_nat ?mx)" by (simp only: Math_round_int)
    then show ?thesis using ratio_large [OF le mx(1)] by simp
  qed
  then show ?thesis using mx(1) nonneg
    by (simp add: newRelevanceScore_def Let_def matchedPhrases_count)
qed

text \<open>
  C6. Whenever the scoring effect runs for a question that has at least one key phrase,
  the relevance score it stores is the specification's: the number of key phrases that
  occur in the answer, case ignored (\<open>occursIgnoringCase\<close>) and each counted once, times
  \<open>100\<close> over \<open>min(5, keyPhrases.length)\<close>, rounded and clamped to \<open>[0,100]\<close>,
  and \<open>0\<close> for the empty answer.
\<close>

theorem relevance_score:
  assumes "currentQuestion r < length (questions r)"
    and "keyPhrases (questions r ! currentQuestion r) \<noteq> []"
  shows "\<exists>st'. scoreAnswer r st = Some st'
           \<and> relevanceScore st'
               = spec_relevance (userAnswer r) (keyPhrases (questions r ! currentQuestion r))
           \<and> 0 \<le> relevanceScore st' \<and> relevanceScore st' \<le> 100"
proof (cases "userAnswer r = []")
  case True
  then show ?thesis by (simp add: scoreAnswer_def spec_relevance_def)
next
  case False
  moreover have "questions r \<noteq> []" using assms(1) by auto
  ultimately show ?thesis using assms
    by (simp add: scoreAnswer_def spec_relevance_def Let_def newRelevanceScore_exact)
qed

text \<open>The specification's example: two of three key phrases found, relevance \<open>67\<close>.\<close>

lemma hooks_matched: "matchedCount hooksAnswer [''state'', ''hook'', ''effect''] = 2"
  unfolding matchedPhrases_count [symmetric] hooksAnswer_def by code_simp

lemma hooks_relevance: "spec_relevance hooksAnswer [''state'', ''hook'', ''effect''] = 67"
proof -
  have "Math_round (100 * of_nat 2 / of_nat (min 5 (length [''state'', ''hook'', ''effect'']))) = 67"
    by code_simp
  moreover have "hooksAnswer \<noteq> []" by (simp add: hooksAnswer_def)
  ultimately show ?thesis by (simp add: spec_relevance_def hooks_matched)
qed

text \<open>
  The example in mixed case: two of three key phrases again, \<open>state\<close> counted once
  though it is there three times; read letter for letter, one phrase only would be found.
  And an accented capital: \<open>0xC9\<close>, E acute, is the same letter as \<open>0xE9\<close>.
\<close>

lemma mixed_matched: "matchedCount mixedAnswer [''State'', ''hook'', ''Effect''] = 2"
  unfolding matchedPhrases_count [symmetric] mixedAnswer_def by code_simp

lemma mixed_letter_for_letter:
  "filter (\<lambda>phrase. sublist phrase mixedAnswer) [''State'', ''hook'', ''Effect''] = [''State'']"
  unfolding includes_str_sublist [symmetric] mixedAnswer_def by code_simp

lemma mixed_relevance: "spec_relevance mixedAnswer [''State'', ''hook'', ''Effect''] = 67"
proof -
  have "Math_round (100 * of_nat 2 / of_nat (min 5 (length [''State'', ''hook'', ''Effect''])))
          = 67"
    by code_simp
  moreover have "mixedAnswer \<noteq> []" by (simp add: mixedAnswer_def)
  ultimately show ?thesis by (simp add: spec_relevance_def mixed_matched)
qed

lemma accented_relevance:
  "toLowerCase (CHR 0xC9 # ''TAT'') = CHR 0xE9 # ''tat''"
  "newRelevanceScore (CHR 0xC9 # ''TAT'') [CHR 0xE9 # ''tat'', ''hook''] = Some 50"
  by code_simp+

theorem relevance_score_witness:
  "(\<exists>st'. scoreAnswer answering answering = Some st' \<and> relevanceScore st' = 67)
   \<and> (\<exists>st'. scoreAnswer answeringMixed answeringMixed = Some st' \<and> relevanceScore st' = 67)"
proof -
  have q: "questions answering ! currentQuestion answering = hooksQuestion"
    and a: "userAnswer answering = hooksAnswer"
    and c: "currentQuestion answering < length (questions answering)"
    by (simp_all add: answering_def initialState_def)
  have k: "keyPhrases hooksQuestion = [''state'', ''hook'', ''effect'']"
    by (simp add: hooksQuestion_def)
  have "keyPhrases (questions answering ! currentQuestion answering) \<noteq> []"
    by (simp add: q k)
  from relevance_score [OF c this, of answering]
  have lower: "\<exists>st'. scoreAnswer answering answering = Some st' \<and> relevanceScore st' = 67"
    by (auto simp: q a k hooks_relevance)
  have q': "questions answeringMixed ! currentQuestion answeringMixed = mixedQuestion"
    and a': "userAnswer answeringMixed = mixedAnswer"
    and c': "currentQuestion answeringMixed < length (questions answeringMixed)"
    by (simp_all add: answeringMixed_def initialState_def)
  have k': "keyPhrases mixedQuestion = [''State'', ''hook'', ''Effect'']"
    by (simp add: mixedQuestion_def)
  have "keyPhrases (questions answeringMixed ! currentQuestion answeringMixed) \<noteq> []"
    by (simp add: q' k')
  from relevance_score [OF c' this, of answeringMixed]
  have "\<exists>st'. scoreAnswer answeringMixed answeringMixed = Some st' \<and> relevanceScore st' = 67"
    by (auto simp: q' a' k' mixed_relevance)
  with lower show ?thesis by simp
qed

section \<open>Communication\<close>

lemma weighted_grammarIssues: "weighted text grammarIssues = penalties text"
  by (simp add: weighted_def grammarIssues_def penalties_def)

lemma weighted_positiveIndicators: "weighted text positiveIndicators = bonuses text"
  by (simp add: weighted_def positiveIndicators_def bonuses_def)

lemma nothing_in_empty_text: "penalties [] = 0" "bonuses [] = 0"
  unfolding penalties_def bonuses_def by code_simp+

text \<open>
  C7, as the specification states it, fails for the empty text: the formula gives \<open>40\<close>
  (base \<open>70\<close>, no match, capped for a short text), \<^verbatim>\<open>evaluateCommunication\<close>
  returns \<open>0\<close> at its first line.
\<close>

theorem communication_empty_text:
  "evaluateCommunication [] = 0 \<and> spec_communication [] = 40"
  by (simp add: evaluateCommunication_def spec_communication_def nothing_in_empty_text)

text \<open>
  C7, amended. For every non-empty answer text the communication score is \<open>70\<close> minus
  the summed penalties plus the summed bonuses, capped at \<open>40\<close> when the text is shorter
  than \<open>50\<close> characters, then clamped to \<open>[0,100]\<close>; for the empty text it is \<open>0\<close>.
  In both cases a text of fewer than \<open>50\<close> characters scores at most \<open>40\<close>.
\<close>

theorem communication_score:
  "evaluateCommunication text = (if text = [] then 0 else spec_communication text)
   \<and> (length text < 50 \<longrightarrow> evaluateCommunication text \<le> 40)"
  by (simp add: evaluateCommunication_def spec_communication_def Let_def
      weighted_grammarIssues weighted_positiveIndicators)

text \<open>
  The short answer: no penalty, bonuses \<open>5 + 3 + 2\<close>, so \<open>80\<close> before the cap and
  \<open>40\<close> after it.
\<close>

lemma shortAnswer_counts: "penalties shortAnswer = 0" "bonuses shortAnswer = 10"
  unfolding penalties_def bonuses_def shortAnswer_def by code_simp+

theorem communication_score_witness:
  "evaluateCommunication shortAnswer = 40"
proof -
  have "spec_communication shortAnswer = 40"
    by (simp add: spec_communication_def shortAnswer_counts) (simp add: shortAnswer_def)
  moreover have "shortAnswer \<noteq> []" by (simp add: shortAnswer_def)
  ultimately show ?thesis
    using communication_score [of shortAnswer] by simp
qed

section \<open>What \<^verbatim>\<open>endInterview\<close> changes\<close>

lemma endInterview_submit_frame:
  "confidenceHistory (endInterview_submit r env st) = confidenceHistory st"
  "relevanceHistory (endInterview_submit r env st) = relevanceHistory st"
  "communicationHistory (endInterview_submit r env st) = communicationHistory st"
  "currentQuestion (endInterview_submit r env st) = currentQuestion st"
  "questions (endInterview_submit r env st) = questions st"
  "answers (endInterview_submit r env st) = answers st"
  "isShuttingDown (endInterview_submit r env st) = isShuttingDown st"
  by (cases "buildInterviewData r"; cases "postResult env";
      simp add: endInterview_submit_def submitReport_def afterPost_def Let_def)+

lemma endInterview_save_frame:
  "confidenceHistory (endInterview_save r st) = confidenceHistory st @ [confidenceScore r]"
  "relevanceHistory (endInterview_save r st) = relevanceHistory st @ [relevanceScore r]"
  "communicationHistory (endInterview_save r st)
     = communicationHistory st @ [communicationScore r]"
  "currentQuestion (endInterview_save r st) = currentQuestion st"
  "questions (endInterview_save r st) = questions st"
  "answers (endInterview_save r st) = assignAt (answers r) (currentQuestion r) (userAnswer r)"
  "isShuttingDown (endInterview_save r st) = isShuttingDown st"
  "posted (endInterview_save r st) = posted st"
  by (simp_all add: endInterview_save_def saveAnswerForCurrentQuestion_def
      saveCurrentMetrics_def stopListening_def Let_def)

lemma endInterview_shutdown_frame:
  "confidenceHistory (endInterview_shutdown r st) = confidenceHistory st"
  "relevanceHistory (endInterview_shutdown r st) = relevanceHistory st"
  "communicationHistory (endInterview_shutdown r st) = communicationHistory st"
  "currentQuestion (endInterview_shutdown r st) = currentQuestion st"
  "questions (endInterview_shutdown r st) = questions st"
  "isShuttingDown (endInterview_shutdown r st) = True"
  "posted (endInterview_shutdown r st) = posted st"
  by (simp_all add: endInterview_shutdown_def)

lemma endInterview_frame:
  "confidenceHistory (endInterview r env st) = confidenceHistory st @ [confidenceScore r]"
  "relevanceHistory (endInterview r env st) = relevanceHistory st @ [relevanceScore r]"
  "communicationHistory (endInterview r env st)
     = communicationHistory st @ [communicationScore r]"
  "currentQuestion (endInterview r env st) = currentQuestion st"
  "questions (endInterview r env st) = questions st"
  "answers (endInterview r env st) = assignAt (answers r) (currentQuestion r) (userAnswer r)"
  "isShuttingDown (endInterview r env st) = True"
  by (simp_all add: endInterview_def endInterview_submit_frame endInterview_save_frame
      endInterview_shutdown_frame)

lemma buildInterviewData_Some:
  "length (answers r) \<le> length (questions r) \<Longrightarrow> \<exists>d. buildInterviewData r = Some d"
  by (simp add: buildInterviewData_def Let_def)

lemma open_session:
  "\<not> noToken accepted"
  "length (answers answering) \<le> length (questions answering)"
  "length (answers endedOnce) \<le> length (questions endedOnce)"
  "posted answering = []"
  "confidenceHistory answering = []"
  "relevanceHistory answering = []"
  "communicationHistory answering = []"
  by (simp_all add: noToken_def accepted_def endedOnce_def endInterview_frame assignAt_def,
      simp_all add: answering_def initialState_def)

section \<open>The report\<close>

lemma foldl_plus: "foldl (\<lambda>total v. total + v) k arr = k + sum_list arr" for k :: int
  by (induction arr arbitrary: k) auto

lemma calculateAverage_mean:
  "calculateAverage arr =
     (if arr = [] then 0
      else Math_round (fdiv (of_int (sum_list arr)) (of_nat (length arr))))"
  by (simp add: calculateAverage_def foldl_plus)

lemma buildInterviewData_fields:
  assumes "buildInterviewData r = Some d"
  shows "confidence (performance d) = calculateAverage (confidenceHistory r)"
    and "relevance (performance d) = calculateAverage (relevanceHistory r)"
    and "communicationSkills (performance d) = calculateAverage (communicationHistory r)"
    and "score d = overallScore (confidence (performance d)) (relevance (performance d))
                     (communicationSkills (performance d))"
    and "metricsConfidenceHistory d = confidenceHistory r"
    and "metricsRelevanceHistory d = relevanceHistory r"
    and "metricsCommunicationHistory d = communicationHistory r"
    and "strength d = ''You demonstrated good ''
           @ strengthTopic (confidence (performance d)) (relevance (performance d))
               (communicationSkills (performance d)) @ ''.''"
    and "improvement d = ''Consider working on your ''
           @ improvementTopic (confidence (performance d)) (relevance (performance d))
               (communicationSkills (performance d)) @ ''.''"
  using assms by (auto simp: buildInterviewData_def Let_def split: if_splits)

lemma endInterview_posted:
  assumes "\<not> noToken env" and "buildInterviewData r = Some d"
  shows "posted (endInterview r env st) = posted st @ [d]"
  using assms
  by (cases "postResult env")
     (simp_all add: endInterview_def endInterview_submit_def submitReport_def afterPost_def
        endInterview_save_def endInterview_shutdown_def saveAnswerForCurrentQuestion_def
        saveCurrentMetrics_def stopListening_def Let_def)

text \<open>
  What a call of \<^verbatim>\<open>endInterview\<close> reports and what it leaves behind. The report
  carries the averages of the histories of the render \<open>r\<close> that made the call, and the
  overall score of those averages; the sample the call itself takes goes to the pending
  histories, which the call does not read.
\<close>

lemma report_of_caller:
  assumes "\<not> noToken env" and "length (answers r) \<le> length (questions r)"
  shows "\<exists>d. posted (endInterview r env st) = posted st @ [d]
    \<and> confidence (performance d) = calculateAverage (confidenceHistory r)
    \<and> relevance (performance d) = calculateAverage (relevanceHistory r)
    \<and> communicationSkills (performance d) = calculateAverage (communicationHistory r)
    \<and> score d = overallScore (confidence (performance d)) (relevance (performance d))
                  (communicationSkills (performance d))
    \<and> confidenceHistory (endInterview r env st) = confidenceHistory st @ [confidenceScore r]
    \<and> relevanceHistory (endInterview r env st) = relevanceHistory st @ [relevanceScore r]
    \<and> communicationHistory (endInterview r env st)
        = communicationHistory st @ [communicationScore r]"
proof -
  obtain d where d: "buildInterviewData r = Some d"
    using buildInterviewData_Some [OF assms(2)] by blast
  note f = buildInterviewData_fields [OF d]
  have "posted (endInterview r env st) = posted st @ [d]"
    by (rule endInterview_posted [OF assms(1) d])
  then show ?thesis using f(1,2,3,4) by (simp add: endInterview_frame)
qed

text \<open>
  C3, on the code. A session of one question, answered, with the scores \<open>60\<close>, \<open>67\<close>
  and \<open>40\<close>, is ended. At the end each history holds its one sample, \<open>[60]\<close>,
  \<open>[67]\<close> and \<open>[40]\<close>, whose means are \<open>60\<close>, \<open>67\<close> and \<open>40\<close> and whose
  overall score is \<open>57\<close>. The report submitted carries the averages \<open>0\<close>, \<open>0\<close> and
  \<open>0\<close> and the overall score \<open>0\<close>: they are computed from the histories of the
  calling render, which are empty.
\<close>

theorem report_omits_terminal_sample:
  "confidenceHistory endedOnce = [60] \<and> relevanceHistory endedOnce = [67]
   \<and> communicationHistory endedOnce = [40]
   \<and> length (posted endedOnce) = 1
   \<and> confidence (performance (last (posted endedOnce))) = 0
   \<and> relevance (performance (last (posted endedOnce))) = 0
   \<and> communicationSkills (performance (last (posted endedOnce))) = 0
   \<and> score (last (posted endedOnce)) = 0
   \<and> metricsConfidenceHistory (last (posted endedOnce)) = []
   \<and> calculateAverage [60] = 60 \<and> calculateAverage [67] = 67 \<and> calculateAverage [40] = 40
   \<and> overallScore 60 67 40 = 57"
proof -
  obtain d where d: "buildInterviewData answering = Some d"
    using buildInterviewData_Some [OF open_session(2)] by blast
  note f = buildInterviewData_fields [OF d]
  have p: "posted endedOnce = [d]"
    unfolding endedOnce_def
    by (simp add: endInterview_posted [OF open_session(1) d] open_session)
  have zero: "overallScore 0 0 0 = 0" by code_simp
  have means: "calculateAverage [60] = 60" "calculateAverage [67] = 67"
    "calculateAverage [40] = 40" "overallScore 60 67 40 = 57"
    by code_simp+
  have scores: "confidenceScore answering = 60" "relevanceScore answering = 67"
    "communicationScore answering = 40"
    by (simp_all add: answering_def initialState_def)
  have "confidenceHistory endedOnce = [60]" "relevanceHistory endedOnce = [67]"
    "communicationHistory endedOnce = [40]"
    by (simp_all add: endedOnce_def endInterview_frame open_session scores)
  moreover have "confidence (performance d) = 0" "relevance (performance d) = 0"
    "communicationSkills (performance d) = 0" "metricsConfidenceHistory d = []"
    by (simp_all add: f open_session calculateAverage_def)
  moreover from this have "score d = 0" by (simp add: f(4) zero)
  ultimately show ?thesis by (simp add: p means)
qed

theorem report_omits_terminal_sample_witness:
  "confidence (performance (last (posted endedOnce)))
     \<noteq> calculateAverage (confidenceHistory endedOnce)
   \<and> score (last (posted endedOnce))
     \<noteq> overallScore (calculateAverage (confidenceHistory endedOnce))
          (calculateAverage (relevanceHistory endedOnce))
          (calculateAverage (communicationHistory endedOnce))"
  using report_omits_terminal_sample by simp

text \<open>
  The report of the sample session \<open>midSession\<close>: one stored sample per metric, the
  averages \<open>55\<close>, \<open>33\<close> and \<open>40\<close>.
\<close>

lemma midSession_report:
  "buildInterviewData midSession =
     Some \<lparr>score = overallScore 55 33 40,
           performance = \<lparr>confidence = 55, communicationSkills = 40, relevance = 33, fluency = 0\<rparr>,
           strength = ''You demonstrated good confidence.'',
           improvement = ''Consider working on your answer relevance by including more key technical terms.'',
           askedQuestions = map question (questions midSession),
           responses = [Some ''first answer'', Some [], Some [], Some []],
           metricsConfidenceHistory = [55], metricsRelevanceHistory = [33],
           metricsCommunicationHistory = [40]\<rparr>"
proof -
  have "calculateAverage [55] = 55" "calculateAverage [33] = 33" "calculateAverage [40] = 40"
    by code_simp+
  then show ?thesis
    by (simp add: buildInterviewData_def midSession_def initialState_def Let_def
        strengthTopic_def improvementTopic_def)
qed

text \<open>
  The arithmetic of the report is JavaScript's: doubles, and \<^verbatim>\<open>Math.round\<close>. Against
  exact arithmetic: the average is the exact mean, rounded, for every history
  whose sum is below \<open>2 ^ 52\<close>. The overall score of averages within \<open>[0,100]\<close> is
  the exact weighted sum, rounded, unless that sum ends in \<open>.5\<close>: there the doubles can
  fall just short, as \<open>0.3 * 1 + 0.4 * 0 + 0.3 * 24\<close> does (\<open>7.499999999999999\<close>).
\<close>

lemma calculateAverage_exact:
  assumes "0 \<le> sum_list arr" and "sum_list arr < 2 ^ 52"
  shows "calculateAverage arr =
           (if arr = [] then 0 else Math_round (of_int (sum_list arr) / of_nat (length arr)))"
  using assms by (simp add: calculateAverage_mean mean_round_exact)

lemma overallScore_exact:
  assumes "0 \<le> a" "a \<le> 100" "0 \<le> r" "r \<le> 100" "0 \<le> c" "c \<le> 100"
    and "(3 * a + 4 * r + 3 * c) mod 10 \<noteq> 5"
  shows "overallScore a r c = Math_round (of_int (3 * a + 4 * r + 3 * c) / 10)"
proof -
  define m where "m = 3 * a + 4 * r + 3 * c"
  define E :: rat where "E = of_int m / 10"
  define k where "k = Math_round E"
  define s where "s = fadd (fadd (fmul (of_int a) lit_0_3) (fmul (of_int r) lit_0_4))
                           (fmul (of_int c) lit_0_3)"
  define W :: rat where "W = of_int a * lit_0_3 + of_int r * lit_0_4 + of_int c * lit_0_3"
  define h :: rat where "h = 1 / 2 ^ 40"
  have h: "0 < h" "4 * h < 1 / 10" by (simp_all add: h_def)
  have w: "0 \<le> lit_0_3" "lit_0_3 \<le> 1" "0 \<le> lit_0_4" "lit_0_4 \<le> 1"
    by (simp_all add: literals)
  have "\<bar>s - W\<bar> \<le> h"
    unfolding s_def W_def h_def
    by (rule weighted_sum_near [OF assms(1-6) w(1,2,3,4,1,2)])
  then have near: "s - W \<le> h" "- h \<le> s - W"
    unfolding abs_le_iff by linarith+
  have ra: "(0::rat) \<le> of_int a" "(of_int a :: rat) \<le> 100"
    and rr: "(0::rat) \<le> of_int r" "(of_int r :: rat) \<le> 100"
    and rc: "(0::rat) \<le> of_int c" "(of_int c :: rat) \<le> 100"
    using assms(1-6) by (simp_all add: of_int_le_numeral_iff [symmetric] del: of_int_le_numeral_iff)
  have E: "E = of_int a * (3 / 10) + of_int r * (4 / 10) + of_int c * (3 / 10)"
    by (simp add: E_def m_def field_simps)
  define d3 :: rat where "d3 = 3 / 10 - lit_0_3"
  define d4 :: rat where "d4 = lit_0_4 - 4 / 10"
  have d: "0 \<le> d3" "d3 \<le> h / 100" "0 \<le> d4" "d4 \<le> h / 100"
    by (simp_all add: d3_def d4_def literals h_def)
  have WEeq: "W - E = of_int r * d4 - of_int a * d3 - of_int c * d3"
    by (simp add: W_def E d3_def d4_def algebra_simps)
  have p: "0 \<le> of_int a * d3" "of_int a * d3 \<le> 100 * (h / 100)"
    "0 \<le> of_int r * d4" "of_int r * d4 \<le> 100 * (h / 100)"
    "0 \<le> of_int c * d3" "of_int c * d3 \<le> 100 * (h / 100)"
  proof -
    show "0 \<le> of_int a * d3" by (rule mult_nonneg_nonneg [OF ra(1) d(1)])
    show "0 \<le> of_int r * d4" by (rule mult_nonneg_nonneg [OF rr(1) d(3)])
    show "0 \<le> of_int c * d3" by (rule mult_nonneg_nonneg [OF rc(1) d(1)])
    show "of_int a * d3 \<le> 100 * (h / 100)" by (rule mult_mono [OF ra(2) d(2) _ d(1)]) simp
    show "of_int r * d4 \<le> 100 * (h / 100)" by (rule mult_mono [OF rr(2) d(4) _ d(3)]) simp
    show "of_int c * d3 \<le> 100 * (h / 100)" by (rule mult_mono [OF rc(2) d(2) _ d(1)]) simp
  qed
  have "100 * (h / 100) = h" by simp
  with p have WE: "W - E \<le> h" "- (2 * h) \<le> W - E"
    unfolding WEeq by linarith+
  have k1: "of_int k \<le> E + 1 / 2" and k2: "E + 1 / 2 < of_int k + 1"
    unfolding k_def Math_round_def by linarith+
  have "of_int (10 * k) \<le> (of_int (m + 5) :: rat)" using k1 by (simp add: E_def)
  then have m1: "10 * k \<le> m + 5" by (simp only: of_int_le_iff)
  have "(of_int (m + 5) :: rat) < of_int (10 * k + 10)" using k2 by (simp add: E_def)
  then have m2: "m + 5 < 10 * k + 10" by (simp only: of_int_less_iff)
  have "m mod 10 \<noteq> 5" using assms(7) by (simp add: m_def)
  then have "m \<noteq> 10 * k - 5" by presburger
  with m1 m2 have "10 * k - 4 \<le> m" "m \<le> 10 * k + 4" by linarith+
  then have "(of_int (10 * k - 4) :: rat) \<le> of_int m" "(of_int m :: rat) \<le> of_int (10 * k + 4)"
    by (simp_all only: of_int_le_iff)
  then have gap: "of_int k - 2 / 5 \<le> E" "E \<le> of_int k + 2 / 5"
    by (simp_all add: E_def)
  have "of_int k \<le> s + 1 / 2" "s + 1 / 2 < of_int k + 1"
    using near WE gap h by linarith+
  then have "Math_round s = k" unfolding Math_round_def by linarith
  then show ?thesis by (simp add: overallScore_def s_def k_def E_def m_def)
qed

lemma overallScore_tie:
  "overallScore 1 0 24 = 7 \<and> Math_round (of_int (3 * 1 + 4 * 0 + 3 * 24) / 10) = 8"
  by code_simp

section \<open>Feedback\<close>

text \<open>
  C9, as the specification states it, fails on a tie. With confidence and communication
  both at \<open>50\<close> and relevance at \<open>10\<close>, the strength line names communication, not
  confidence; with confidence and communication both at \<open>50\<close> and relevance at \<open>90\<close>,
  the improvement line names communication, not confidence. (The arguments are
  confidence, relevance, communication.)
\<close>

theorem feedback_tie:
  "strengthTopic 50 10 50 = ''communication skills''
   \<and> improvementTopic 50 90 50 = ''communication skills''"
  by (simp add: strengthTopic_def improvementTopic_def)

text \<open>
  C9, amended. The strength line of a report names a metric whose average is the highest
  of the three, the improvement line one whose average is the lowest; on a tie relevance
  is named before communication, and communication before confidence.
\<close>

theorem feedback_topics:
  assumes "buildInterviewData r = Some d"
  shows "strength d = ''You demonstrated good ''
           @ (let a = confidence (performance d); v = relevance (performance d);
                  c = communicationSkills (performance d); top = max a (max v c)
              in if v = top then ''relevance in your answers''
                 else if c = top then ''communication skills'' else ''confidence'') @ ''.''
    \<and> improvement d = ''Consider working on your ''
           @ (let a = confidence (performance d); v = relevance (performance d);
                  c = communicationSkills (performance d); low = min a (min v c)
              in if v = low then ''answer relevance by including more key technical terms''
                 else if c = low then ''communication skills''
                 else ''confidence during interviews'') @ ''.''"
  unfolding buildInterviewData_fields(8,9) [OF assms]
  by (simp add: strengthTopic_def improvementTopic_def Let_def max_def min_def)

theorem feedback_topics_witness:
  "strength (the (buildInterviewData midSession)) = ''You demonstrated good confidence.''
   \<and> improvement (the (buildInterviewData midSession))
       = ''Consider working on your answer relevance by including more key technical terms.''"
  using feedback_topics [OF midSession_report] by (simp add: midSession_report)

section \<open>Ending the interview\<close>

text \<open>
  C1, as the specification states it, fails. \<^verbatim>\<open>endInterview\<close> is called in a session
  with empty histories and nothing submitted, and called again when that call is over,
  by the handler of the new render, in which \<open>isShuttingDown\<close> is set. Each history
  then holds two samples and two reports have been submitted.
\<close>

theorem end_twice:
  "isShuttingDown endedOnce
   \<and> length (confidenceHistory endedTwice) = 2
   \<and> length (relevanceHistory endedTwice) = 2
   \<and> length (communicationHistory endedTwice) = 2
   \<and> length (posted endedTwice) = 2"
proof -
  obtain d where d: "buildInterviewData answering = Some d"
    using buildInterviewData_Some [OF open_session(2)] by blast
  obtain e where e: "buildInterviewData endedOnce = Some e"
    using buildInterviewData_Some [OF open_session(3)] by blast
  have "posted endedOnce = [d]"
    unfolding endedOnce_def
    by (simp add: endInterview_posted [OF open_session(1) d] open_session)
  then have "posted endedTwice = [d, e]"
    unfolding endedTwice_def by (simp add: endInterview_posted [OF open_session(1) e])
  moreover have "length (confidenceHistory endedTwice) = 2"
    "length (relevanceHistory endedTwice) = 2" "length (communicationHistory endedTwice) = 2"
    by (simp_all add: endedTwice_def endedOnce_def endInterview_frame open_session)
  moreover have "isShuttingDown endedOnce"
    by (simp add: endedOnce_def endInterview_frame)
  ultimately show ?thesis by simp
qed

text \<open>
  C1, amended. Every call to \<^verbatim>\<open>endInterview\<close> appends one terminal sample, the
  scores of its render, to each of the three history arrays; when a token is stored and
  the saved answers do not outnumber the questions it submits one report. It does not
  test \<open>isShuttingDown\<close>: a second call appends a second sample and submits again.
\<close>

theorem endInterview_every_call:
  assumes "\<not> noToken env" and "length (answers r) \<le> length (questions r)"
  shows "confidenceHistory (endInterview r env st) = confidenceHistory st @ [confidenceScore r]
    \<and> relevanceHistory (endInterview r env st) = relevanceHistory st @ [relevanceScore r]
    \<and> communicationHistory (endInterview r env st)
        = communicationHistory st @ [communicationScore r]
    \<and> length (posted (endInterview r env st)) = length (posted st) + 1"
proof -
  obtain d where "buildInterviewData r = Some d"
    using buildInterviewData_Some [OF assms(2)] by blast
  then have "posted (endInterview r env st) = posted st @ [d]"
    by (rule endInterview_posted [OF assms(1)])
  then show ?thesis by (simp add: endInterview_frame)
qed

theorem endInterview_every_call_witness:
  "isShuttingDown endedOnce
   \<and> length (posted (endInterview endedOnce accepted endedOnce)) = length (posted endedOnce) + 1
   \<and> confidenceHistory (endInterview endedOnce accepted endedOnce)
       = confidenceHistory endedOnce @ [confidenceScore endedOnce]"
  using endInterview_every_call [OF open_session(1,3), of endedOnce]
  by (simp add: endedOnce_def endInterview_frame)

section \<open>Advancing\<close>

text \<open>
  C8. In a session with questions, with the cursor on one of them, \<^verbatim>\<open>nextQuestion\<close>
  run by a handler that holds the current cursor and questions: below the last index it
  adds one to the cursor and empties the answer and the transcript; on the last index it
  is \<^verbatim>\<open>endInterview\<close>, after the answer and the metrics are saved, and leaves the
  cursor where it is. Either way the cursor stays on a question.
\<close>

theorem nextQuestion_cursor:
  assumes "questions st \<noteq> []" and "currentQuestion st < length (questions st)"
    and "currentQuestion r = currentQuestion st" and "questions r = questions st"
  shows "(if currentQuestion st < length (questions st) - 1
          then currentQuestion (nextQuestion r env st) = currentQuestion st + 1
             \<and> userAnswer (nextQuestion r env st) = []
             \<and> speechToText (nextQuestion r env st) = []
          else nextQuestion r env st
                 = endInterview r env (saveCurrentMetrics r (saveAnswerForCurrentQuestion r st))
             \<and> currentQuestion (nextQuestion r env st) = currentQuestion st)
     \<and> currentQuestion (nextQuestion r env st) < length (questions (nextQuestion r env st))"
proof (cases "currentQuestion st < length (questions st) - 1")
  case True
  then have "int (currentQuestion st) < int (length (questions st)) - 1"
    by linarith
  then have "int (currentQuestion r) < int (length (questions r)) - 1"
    by (simp add: assms(3,4))
  then show ?thesis using True
    by (simp add: nextQuestion_def Let_def saveAnswerForCurrentQuestion_def
        saveCurrentMetrics_def)
next
  case False
  then have "\<not> int (currentQuestion st) < int (length (questions st)) - 1"
    by linarith
  then have "\<not> int (currentQuestion r) < int (length (questions r)) - 1"
    by (simp add: assms(3,4))
  then have n: "nextQuestion r env st
      = endInterview r env (saveCurrentMetrics r (saveAnswerForCurrentQuestion r st))"
    by (simp add: nextQuestion_def Let_def)
  show ?thesis using False assms(2)
    by (simp add: n endInterview_frame saveAnswerForCurrentQuestion_def saveCurrentMetrics_def)
qed

theorem nextQuestion_cursor_witness:
  "currentQuestion (nextQuestion midSession accepted midSession) = 2
   \<and> userAnswer (nextQuestion midSession accepted midSession) = []
   \<and> speechToText (nextQuestion midSession accepted midSession) = []"
proof -
  have m: "questions midSession \<noteq> []" "currentQuestion midSession < length (questions midSession)"
    "currentQuestion midSession = 1" "length (questions midSession) = 4"
    by (simp_all add: midSession_def initialState_def)
  from nextQuestion_cursor [OF m(1,2) refl refl, of accepted]
  show ?thesis by (simp add: m(3,4))
qed

section \<open>Perception\<close>

text \<open>
  What a sample does, in terms of the handler that runs it. A handler that sees
  \<open>isShuttingDown\<close> set or the camera off changes nothing; the test is made once, when
  the call starts.
\<close>

lemma detectFace_guard:
  "isShuttingDown r \<or> \<not> cameraActive r \<Longrightarrow> detectFace r video faces st = st"
  by (auto simp: detectFace_def detectFace_start_def)

lemma facePresent_confidence:
  "confidenceScore (facePresent r firstFace st)
     = boundedScore (confidenceScore r)
         (expressionScore (fst (dominant firstFace)) (snd (dominant firstFace)))"
  by (simp add: facePresent_def Let_def split_def)

lemma boundedScore_range: "10 \<le> boundedScore previous raw \<and> boundedScore previous raw \<le> 100"
  by (simp add: boundedScore_def)

text \<open>
  A handler that holds the current confidence and expression carries out the no-face
  policy: confidence \<open>0\<close>, expression unknown, the counter one lower and not below \<open>0\<close>.
\<close>

lemma noFace_current:
  assumes "confidenceScore r = confidenceScore st" and "facialExpression r = facialExpression st"
  shows "confidenceScore (noFace r st) = 0 \<and> facialExpression (noFace r st) = ''unknown''
    \<and> faceDetectionSuccess (noFace r st) = max 0 (faceDetectionSuccess st - 1)"
  using assms by (simp add: noFace_def Let_def)

lemma detectionError_noFace: "detectionError r st = noFace r st"
  by (simp add: detectionError_def noFace_def Let_def)

text \<open>The samples of the example, evaluated.\<close>

lemma neutral_sample:
  "dominant neutralFace = (''neutral'', 1)"
  "expressionScore ''neutral'' 1 = 60"
  "lit_0_3 < 1"
  by code_simp+

lemma happy_sample:
  "dominant happyFace = (''happy'', intensity_0_8)"
  "expressionScore ''happy'' intensity_0_8 = 90"
  "lit_0_3 < intensity_0_8"
  by code_simp+

lemma smoothing_60_90: "boundedScore 60 90 = 81"
  by code_simp

lemma boundedScore_zero: "boundedScore 0 raw = max 10 (min 100 raw)"
  by (simp add: boundedScore_def newScore_def)

lemma watching_fields:
  "\<not> isShuttingDown watching" "modelsLoaded watching" "cameraActive watching"
  "confidenceScore watching = 0" "facialExpression watching = ''neutral''"
  "faceDetectionSuccess watching = 0"
  by (simp_all add: watching_def initialState_def)

lemma sample_starts: "detectFace_start watching camera st = (st, True)"
  by (simp add: detectFace_start_def camera_def watching_fields)

lemma firstSample_fields:
  "confidenceScore firstSample = 60" "facialExpression firstSample = ''neutral''"
  "faceDetectionSuccess firstSample = 1"
  by (simp_all add: firstSample_def detectFace_def sample_starts detectFace_settle_def
      facePresent_def Let_def neutral_sample watching_fields boundedScore_zero)

text \<open>
  C4, on the code. The interval's handler is the one of the render \<open>watching\<close>, whose
  confidence is \<open>0\<close>. After the first sample the confidence is \<open>60\<close>; the next sample,
  a happy face of raw score \<open>90\<close>, is not smoothed: the handler tests and uses its own
  \<open>confidenceScore\<close>, and the confidence becomes \<open>90\<close>, not
  \<open>round(0.7 * 90 + 0.3 * 60) = 81\<close>.
\<close>

theorem stale_handler_skips_smoothing:
  "confidenceScore firstSample = 60 \<and> confidenceScore staleSmoothed = 90
   \<and> boundedScore 60 90 = 81"
  by (simp add: staleSmoothed_def detectFace_def sample_starts detectFace_settle_def
      facePresent_confidence happy_sample watching_fields boundedScore_zero
      firstSample_fields smoothing_60_90)

theorem stale_handler_skips_smoothing_witness:
  "confidenceScore staleSmoothed \<noteq> boundedScore (confidenceScore firstSample) 90"
  using stale_handler_skips_smoothing by simp

text \<open>
  C5, on the code. The same handler, the same state after the first sample, and a sample
  with no face: the handler's own \<open>confidenceScore\<close> is \<open>0\<close>, so it does not call
  \<^verbatim>\<open>setConfidenceScore(0)\<close>, and the confidence stays \<open>60\<close>.
\<close>

theorem stale_handler_keeps_confidence:
  "confidenceScore firstSample = 60 \<and> confidenceScore staleNoFace = 60
   \<and> facialExpression staleNoFace = ''unknown'' \<and> faceDetectionSuccess staleNoFace = 0"
  by (simp add: staleNoFace_def detectFace_def sample_starts detectFace_settle_def
      noFace_def Let_def watching_fields firstSample_fields)

theorem stale_handler_keeps_confidence_witness:
  "confidenceScore staleNoFace \<noteq> 0"
  using stale_handler_keeps_confidence by simp

text \<open>
  C2, on the code. A sample starts while the interview runs; \<^verbatim>\<open>endInterview\<close> then
  sets \<open>isShuttingDown\<close> and switches the camera off; the detection settles afterwards
  with a happy face. Its result is applied: confidence, expression and counter change
  after the shutdown has begun.
\<close>

theorem sample_settles_after_shutdown:
  "snd sampleInFlight \<and> isShuttingDown shutDown \<and> \<not> cameraActive shutDown
   \<and> confidenceScore shutDown = 0 \<and> facialExpression shutDown = ''neutral''
   \<and> faceDetectionSuccess shutDown = 0
   \<and> confidenceScore settledLate = 90 \<and> facialExpression settledLate = ''happy''
   \<and> faceDetectionSuccess settledLate = 1"
  by (simp add: settledLate_def shutDown_def sampleInFlight_def sample_starts
      endInterview_shutdown_def detectFace_settle_def facePresent_def Let_def happy_sample
      watching_fields boundedScore_zero)

theorem sample_settles_after_shutdown_witness:
  "isShuttingDown shutDown \<and> confidenceScore settledLate \<noteq> confidenceScore shutDown"
  using sample_settles_after_shutdown by simp

section \<open>The metric histories\<close>

text \<open>
  \<^verbatim>\<open>saveCurrentMetrics\<close> is the only code that writes the history arrays: the
  handlers that call it append one sample for each call, every other handler leaves the
  three of them as they are.
\<close>

lemma appended_aligned: "aligned st \<Longrightarrow> appended n r st st' \<Longrightarrow> aligned st'"
  by (simp add: aligned_def appended_def)

lemma appended_saveCurrentMetrics: "appended 1 r st (saveCurrentMetrics r st)"
  by (simp add: appended_def saveCurrentMetrics_def)

lemma appended_endInterview_save: "appended 1 r st (endInterview_save r st)"
  by (simp add: appended_def endInterview_save_frame)

lemma appended_endInterview: "appended 1 r st (endInterview r env st)"
  by (simp add: appended_def endInterview_frame)

lemma appended_nextQuestion:
  "appended (if int (currentQuestion r) < int (length (questions r)) - 1 then 1 else 2) r st
     (nextQuestion r env st)"
  by (simp add: appended_def nextQuestion_def Let_def endInterview_frame saveCurrentMetrics_def
      saveAnswerForCurrentQuestion_def numeral_2_eq_2)

lemma appended_timerEffect:
  "appended (if remainingTime r \<le> 0 then 1 else 0) r st (timerEffect r env st)"
  by (simp add: timerEffect_def appended_def endInterview_frame)

lemma unchanged_endInterview_shutdown: "appended 0 r st (endInterview_shutdown r st)"
  by (simp add: appended_def endInterview_shutdown_frame)

lemma unchanged_endInterview_submit: "appended 0 r st (endInterview_submit r env st)"
  by (simp add: appended_def endInterview_submit_frame)

lemma unchanged_detectFace_start: "appended 0 r st (fst (detectFace_start r video st))"
  by (simp add: appended_def detectFace_start_def split: option.splits)

lemma unchanged_detectFace_settle: "appended 0 r st (detectFace_settle r faces st)"
  by (simp add: appended_def detectFace_settle_def facePresent_def noFace_def
      detectionError_def Let_def split_def split: detection.splits list.splits)

lemma unchanged_detectFace: "appended 0 r st (detectFace r video faces st)"
  using unchanged_detectFace_start [of r st video]
    unchanged_detectFace_settle [of r "fst (detectFace_start r video st)" faces]
  by (simp add: detectFace_def appended_def split_def)

lemma unchanged_scoreAnswer: "scoreAnswer r st = Some st' \<Longrightarrow> appended 0 r st st'"
  by (auto simp: appended_def scoreAnswer_def Let_def split: if_splits option.splits)

lemma unchanged_others:
  "appended 0 r st (speechResult finalTranscript st)"
  "appended 0 r st (handleThinkingTime r st)"
  "appended 0 r st (timerTick st)"
  "appended 0 r st (forceConfidence r randomChange st)"
  "appended 0 r st (saveAnswerForCurrentQuestion r st)"
  "appended 0 r st (stopListening r st)"
  by (simp_all add: appended_def speechResult_def handleThinkingTime_def stopListening_def
      timerTick_def forceConfidence_def saveAnswerForCurrentQuestion_def Let_def)

lemma fire_appended:
  assumes "fire e r st = Some st'"
  shows "appended (snapshots e r) r st st'"
proof (cases e)
  case (Expired env)
  then show ?thesis using assms appended_timerEffect [of r st env] by (simp add: snapshots_def)
next
  case Scored
  then show ?thesis using assms by (simp add: snapshots_def unchanged_scoreAnswer)
next
  case (Forced randomChange)
  then show ?thesis using assms
    by (auto simp: snapshots_def unchanged_others split: if_splits)
next
  case (Advanced env)
  then show ?thesis using assms appended_nextQuestion [of r st env] by (simp add: snapshots_def)
next
  case Saved
  then show ?thesis using assms appended_endInterview_save [of r st] by (simp add: snapshots_def)
qed (use assms in \<open>auto simp: snapshots_def unchanged_others unchanged_endInterview_shutdown
      unchanged_endInterview_submit unchanged_detectFace_start unchanged_detectFace_settle,
      auto simp: appended_def\<close>)

lemma reachable_aligned: "reachable st \<Longrightarrow> aligned st"
proof (induction rule: reachable.induct)
  case start
  show ?case by (simp add: aligned_def initialState_def)
next
  case (fired st r e st')
  then show ?case using appended_aligned fire_appended by blast
qed

text \<open>
  C10. In every state the component reaches, the confidence, relevance and communication
  histories have the same length. Every event that can happen there appends to each of
  the three as many elements as it takes snapshots, one for each snapshot: the
  per-question snapshot on advance and the terminal snapshot in \<^verbatim>\<open>endInterview\<close>;
  every other event leaves the three histories as they are. The snapshot itself,
  \<^verbatim>\<open>saveCurrentMetrics\<close>, appends exactly one element to each of the three.
\<close>

theorem histories_same_length:
  assumes "reachable st"
  shows "length (confidenceHistory st) = length (relevanceHistory st)
    \<and> length (relevanceHistory st) = length (communicationHistory st)
    \<and> (\<forall>e r st'. fire e r st = Some st' \<longrightarrow> appended (snapshots e r) r st st')
    \<and> confidenceHistory (saveCurrentMetrics r st) = confidenceHistory st @ [confidenceScore r]
    \<and> relevanceHistory (saveCurrentMetrics r st) = relevanceHistory st @ [relevanceScore r]
    \<and> communicationHistory (saveCurrentMetrics r st)
        = communicationHistory st @ [communicationScore r]"
  using reachable_aligned [OF assms] fire_appended
  by (simp add: aligned_def saveCurrentMetrics_def)

theorem histories_same_length_witness:
  "confidenceHistory closed = [0, 0] \<and> relevanceHistory closed = [0, 0]
   \<and> communicationHistory closed = [0, 0]
   \<and> confidenceHistory (timerTick closed) = confidenceHistory closed
   \<and> length (confidenceHistory closed) = length (relevanceHistory closed)
   \<and> length (relevanceHistory closed) = length (communicationHistory closed)"
proof -
  have f: "fire (Advanced accepted) initialState initialState = Some closed"
    by (simp add: closed_def)
  have "reachable closed"
    by (rule reachable.fired [OF reachable.start reachable.start f])
  from histories_same_length [OF this]
  have "length (confidenceHistory closed) = length (relevanceHistory closed)"
    "length (relevanceHistory closed) = length (communicationHistory closed)"
    "appended (snapshots Tick closed) closed closed (timerTick closed)"
    by simp_all
  moreover from histories_same_length [OF reachable.start] f
  have "appended (snapshots (Advanced accepted) initialState) initialState initialState closed"
    by blast
  ultimately show ?thesis
    by (simp add: appended_def snapshots_def initialState_def numeral_2_eq_2)
qed

end
